theory Spec2Isabelle
  imports Main
begin

section \<open>The form walker of fill\_first\_page.py\<close>

text \<open>
  The script drives a browser through the Playwright driver. The driver, the random
  number generator and the iteration order of Python sets are outside the script, so
  they are the fields of a \<open>world\<close> the script runs in. Every driver call the script
  makes is appended to a trace, every \<open>print\<close> to a console, and every exception is a
  value, so each \<open>try\<close>/\<open>except\<close> of the source is a branch of the model.
\<close>

subsection \<open>Exceptions\<close>

text \<open>
  The exceptions the script can meet, each with its message. All of them are
  subclasses of Python's \<open>Exception\<close>; only the first is Playwright's
  \<open>TimeoutError\<close>, imported as \<open>PlaywrightTimeoutError\<close>.
\<close>

datatype exn =
    PlaywrightTimeoutError string
  | PlaywrightError string
  | JSONDecodeError string
  | OSError string
  | UnicodeDecodeError string
  | IndexError string
  | AttributeError string
  | TypeError string

fun exn_str :: "exn \<Rightarrow> string" where
  "exn_str (PlaywrightTimeoutError m) = m"
| "exn_str (PlaywrightError m) = m"
| "exn_str (JSONDecodeError m) = m"
| "exn_str (OSError m) = m"
| "exn_str (UnicodeDecodeError m) = m"
| "exn_str (IndexError m) = m"
| "exn_str (AttributeError m) = m"
| "exn_str (TypeError m) = m"

text \<open>\<open>except PlaywrightTimeoutError\<close> catches the first class only.\<close>

fun is_timeout :: "exn \<Rightarrow> bool" where
  "is_timeout (PlaywrightTimeoutError m) = True"
| "is_timeout e = False"

text \<open>\<open>except Exception\<close> and the bare \<open>except:\<close> catch every class above.\<close>

definition is_exception :: "exn \<Rightarrow> bool" where
  "is_exception e = True"

subsection \<open>Driver calls and the world\<close>

text \<open>
  One constructor for each driver method the script calls, with the arguments it
  passes (selectors, values, timeouts in milliseconds). \<open>Input\<close> is the
  built-in \<open>input\<close> prompt at the end of \<open>main\<close>.
\<close>

datatype call =
    Launch bool
  | NewPage
  | Goto string nat
  | WaitForSelector string nat
  | WaitForTimeout nat
  | QuerySelector string
  | QuerySelectorAll string
  | Fill string string
  | SelectOption string string
  | Check string
  | Click string nat
  | BrowserClose
  | Input string

text \<open>
  An element handle returned by \<open>query_selector_all\<close>, seen through the three
  attributes the script reads with \<open>get_attribute\<close>; \<open>None\<close> is an absent
  attribute.
\<close>

record radio =
  name_attr :: "string option"
  value_attr :: "string option"
  id_attr :: "string option"

text \<open>
  The world answers each call from the history of calls made so far, the call itself
  being the last element: \<open>raises\<close> says whether the call raises, \<open>found\<close> is
  the truth value of the handle \<open>query_selector\<close> returns, \<open>radios\<close> is the
  result of \<open>query_selector_all\<close>. The random generator is outside the script in
  the same way: \<open>randbelow\<close> is what its method \<open>_randbelow\<close> returns, given the
  bounds requested of it so far, the current bound being the last element (the seed
  fixes this function; how the generator draws and redraws raw bits to stay below the
  bound is its own affair). \<open>set_iter\<close> maps the elements of a Python set, in
  insertion order, to the order in which the set is iterated (for strings it depends
  on the hash seed of the process).
\<close>

record world =
  raises :: "call list \<Rightarrow> exn option"
  found :: "call list \<Rightarrow> bool"
  radios :: "call list \<Rightarrow> radio list"
  randbelow :: "nat list \<Rightarrow> nat"
  set_iter :: "string list \<Rightarrow> string list"

record state =
  trace :: "call list"
  console :: "string list"
  draws :: "nat list"

subsection \<open>Results, sequencing and exception handling\<close>

datatype 'a res = Ret 'a | Exc exn

type_synonym 'a m = "state \<Rightarrow> 'a res \<times> state"

definition ret :: "'a \<Rightarrow> 'a m" where
  "ret x s = (Ret x, s)"

definition and_then :: "'a m \<Rightarrow> ('a \<Rightarrow> 'b m) \<Rightarrow> 'b m" where
  "and_then f g s = (case f s of (Ret x, s') \<Rightarrow> g x s' | (Exc e, s') \<Rightarrow> (Exc e, s'))"

definition seq :: "unit m \<Rightarrow> 'a m \<Rightarrow> 'a m" where
  "seq f g = and_then f (\<lambda>_. g)"

text \<open>A block of statements, run in order; an exception ends the block.\<close>

fun block :: "unit m list \<Rightarrow> unit m" where
  "block [] = ret ()"
| "block (c # cs) = seq c (block cs)"

text \<open>A \<open>for\<close> loop whose body neither breaks nor returns.\<close>

fun for_each :: "('a \<Rightarrow> unit m) \<Rightarrow> 'a list \<Rightarrow> unit m" where
  "for_each f [] s = (Ret (), s)"
| "for_each f (x # xs) s =
     (case f x s of (Ret _, s') \<Rightarrow> for_each f xs s' | (Exc e, s') \<Rightarrow> (Exc e, s'))"

text \<open>\<open>try: body except C as e: handler\<close>, where \<open>catches\<close> is the class test.\<close>

definition try_except :: "'a m \<Rightarrow> (exn \<Rightarrow> bool) \<Rightarrow> (exn \<Rightarrow> 'a m) \<Rightarrow> 'a m" where
  "try_except body catches handler s =
     (case body s of
        (Ret x, s') \<Rightarrow> (Ret x, s')
      | (Exc e, s') \<Rightarrow> if catches e then handler e s' else (Exc e, s'))"

definition print :: "string \<Rightarrow> unit m" where
  "print msg s = (Ret (), s\<lparr>console := console s @ [msg]\<rparr>)"

text \<open>A driver call that returns nothing the script uses.\<close>

definition perform :: "world \<Rightarrow> call \<Rightarrow> unit m" where
  "perform w c s =
     (let s' = s\<lparr>trace := trace s @ [c]\<rparr>
      in case raises w (trace s') of
           None \<Rightarrow> (Ret (), s')
         | Some e \<Rightarrow> (Exc e, s'))"

definition query_selector :: "world \<Rightarrow> string \<Rightarrow> bool m" where
  "query_selector w sel s =
     (let s' = s\<lparr>trace := trace s @ [QuerySelector sel]\<rparr>
      in case raises w (trace s') of
           None \<Rightarrow> (Ret (found w (trace s')), s')
         | Some e \<Rightarrow> (Exc e, s'))"

definition query_selector_all :: "world \<Rightarrow> string \<Rightarrow> radio list m" where
  "query_selector_all w sel s =
     (let s' = s\<lparr>trace := trace s @ [QuerySelectorAll sel]\<rparr>
      in case raises w (trace s') of
           None \<Rightarrow> (Ret (radios w (trace s')), s')
         | Some e \<Rightarrow> (Exc e, s'))"

text \<open>
  \<open>random.choice(seq)\<close> raises \<open>IndexError\<close> on an empty sequence and is
  \<open>seq[self._randbelow(len(seq))]\<close> otherwise: the element at the index the
  generator returns for the bound \<open>len(seq)\<close>. The request is recorded in
  \<open>draws\<close>. The generator promises an index below the bound; indexing with any
  other would raise \<open>IndexError\<close>, as it does on a Python list.
\<close>

definition random_choice :: "world \<Rightarrow> 'a list \<Rightarrow> 'a m" where
  "random_choice w xs s =
     (if xs = [] then (Exc (IndexError ''Cannot choose from an empty sequence''), s)
      else (let requests = draws s @ [length xs];
                i = randbelow w requests;
                s' = s\<lparr>draws := requests\<rparr>
            in if i < length xs then (Ret (xs ! i), s')
               else (Exc (IndexError ''list index out of range''), s')))"

subsection \<open>Strings\<close>

definition quoted :: "string \<Rightarrow> string" where
  "quoted s = [CHR 0x27] @ s @ [CHR 0x27]"

fun str_nat :: "nat \<Rightarrow> string" where
  "str_nat n =
     (if n < 10 then [''0123456789'' ! n]
      else str_nat (n div 10) @ [''0123456789'' ! (n mod 10)])"

declare str_nat.simps [simp del]

definition str_int :: "int \<Rightarrow> string" where
  "str_int i = (if i < 0 then ''-'' @ str_nat (nat (- i)) else str_nat (nat i))"

text \<open>
  The values of a person record as \<open>json.loads\<close> builds them, and Python's
  \<open>str\<close> on them. A float (also \<open>nan\<close> and \<open>inf\<close>) and a nested list or dict
  are seen through the text \<open>str\<close> gives them, which is all the script uses.
\<close>

datatype scalar = JStr string | JInt int | JBool bool | JNull | JFloat string | JNested string

fun str :: "scalar \<Rightarrow> string" where
  "str (JStr s) = s"
| "str (JInt i) = str_int i"
| "str (JBool b) = (if b then ''True'' else ''False'')"
| "str JNull = ''None''"
| "str (JFloat text) = text"
| "str (JNested text) = text"

text \<open>A person record: the items of the dict, in its order.\<close>

type_synonym person = "(string \<times> scalar) list"

text \<open>
  What \<open>json.loads\<close> returns need not be a list of dicts. The loop of \<open>main\<close>
  iterates it: a value that cannot be iterated (a number, a boolean, \<open>None\<close>) is
  known by the name of its type; any other by the elements the iteration yields,
  each a dict or a value of another type (a float in \<open>[NaN]\<close>, the keys of a
  top-level dict, the characters of a top-level string), known by its type name.
\<close>

datatype element = Dict person | NonDict string

datatype loaded = Elements "element list" | NotIterable string

subsection \<open>Constants\<close>

definition SITE_URL :: string where
  "SITE_URL = ''https://form.avalform.com/view.php?id=70833985''"

definition PLAYWRIGHT_HEADLESS :: bool where
  "PLAYWRIGHT_HEADLESS = False"

definition DATA_FILE :: string where
  "DATA_FILE = ''persons.json''"

definition radio_selector :: string where
  \<open>radio_selector = ''input[type="radio"]''\<close>

definition submit_selector :: string where
  "submit_selector = ''input#submit_primary''"

subsection \<open>Page 1: \<open>fill_first_page\<close>\<close>

definition selector_input :: "string \<Rightarrow> string" where
  \<open>selector_input field_name = ''input[name="'' @ field_name @ ''"], input#'' @ field_name\<close>

definition selector_select :: "string \<Rightarrow> string" where
  \<open>selector_select field_name = ''select[name="'' @ field_name @ ''"], select#'' @ field_name\<close>

text \<open>The body of the loop over the items: one \<open>try\<close>/\<open>except Exception\<close>.\<close>

definition fill_field :: "world \<Rightarrow> string \<times> scalar \<Rightarrow> unit m" where
  "fill_field w item =
     (case item of (field_name, val) \<Rightarrow>
        try_except
          (and_then (query_selector w (selector_input field_name)) (\<lambda>q.
             if q then perform w (Fill (selector_input field_name) (str val))
             else and_then (query_selector w (selector_select field_name)) (\<lambda>q'.
               if q' then perform w (SelectOption (selector_select field_name) (str val))
               else print (''[WARNING] No input/select found for '' @ quoted field_name @ ''.''))))
          is_exception
          (\<lambda>e. print (''[ERROR] Filling '' @ quoted field_name @ '' with '' @ quoted (str val)
                       @ '' failed: '' @ exn_str e)))"

definition fill_first_page :: "world \<Rightarrow> person \<Rightarrow> unit m" where
  "fill_first_page w person_data =
     seq (for_each (fill_field w) person_data)
         (try_except (perform w (Click submit_selector 5000)) is_timeout
            (\<lambda>e. print ''[ERROR] Could not find/click 'Continue' on page 1.''))"

subsection \<open>Matrix pages: \<open>fill_radio_matrix_page\<close>\<close>

text \<open>\<open>not a\<close> for an attribute: true of \<open>None\<close> and of the empty string.\<close>

definition falsy :: "string option \<Rightarrow> bool" where
  "falsy a = (a = None \<or> a = Some [])"

text \<open>
  \<open>groups\<close> is a dict from a name to a set of values. The dict keeps its keys in
  insertion order, so it is an association list; the set is its elements in
  insertion order, and \<open>set_iter\<close> gives the order \<open>list(value_set)\<close> returns.
\<close>

definition set_add :: "string list \<Rightarrow> string \<Rightarrow> string list" where
  "set_add vs v = (if v \<in> set vs then vs else vs @ [v])"

fun setdefault_add :: "(string \<times> string list) list \<Rightarrow> string \<Rightarrow> string \<Rightarrow> (string \<times> string list) list" where
  "setdefault_add [] k v = [(k, set_add [] v)]"
| "setdefault_add ((k', vs) # g) k v =
     (if k' = k then (k', set_add vs v) # g else (k', vs) # setdefault_add g k v)"

fun matrix_groups :: "radio list \<Rightarrow> (string \<times> string list) list \<Rightarrow> (string \<times> string list) list" where
  "matrix_groups [] groups = groups"
| "matrix_groups (elem # elems) groups =
     (if falsy (name_attr elem) \<or> falsy (value_attr elem) then matrix_groups elems groups
      else matrix_groups elems
             (setdefault_add groups (the (name_attr elem)) (the (value_attr elem))))"

definition matrix_selector :: "string \<Rightarrow> string \<Rightarrow> string" where
  \<open>matrix_selector name chosen_value =
     ''input[name="'' @ name @ ''"][value="'' @ chosen_value @ ''"]''\<close>

text \<open>The body of the loop over the groups.\<close>

definition check_group :: "world \<Rightarrow> string \<times> string list \<Rightarrow> unit m" where
  "check_group w grp =
     (case grp of (name, value_set) \<Rightarrow>
        and_then (random_choice w (set_iter w value_set)) (\<lambda>chosen_value.
          try_except
            (and_then (query_selector w (matrix_selector name chosen_value)) (\<lambda>q.
               if q then perform w (Check (matrix_selector name chosen_value))
               else print (''[WARNING] For group '' @ quoted name @ '', value='' @ chosen_value
                           @ '' not found.'')))
            is_exception
            (\<lambda>e. print (''[ERROR] Checking '' @ quoted (matrix_selector name chosen_value)
                         @ '' failed: '' @ exn_str e))))"

text \<open>What follows the wait: discover the radios, group them, answer each group.\<close>

definition answer_matrix :: "world \<Rightarrow> radio list \<Rightarrow> unit m" where
  "answer_matrix w radio_elements = for_each (check_group w) (matrix_groups radio_elements [])"

definition fill_radio_matrix_page :: "world \<Rightarrow> nat \<Rightarrow> unit m" where
  "fill_radio_matrix_page w timeout s =
     (case perform w (WaitForSelector radio_selector timeout) s of
        (Exc e, s') \<Rightarrow> if is_timeout e then (Ret (), s') else (Exc e, s')
      | (Ret _, s') \<Rightarrow> and_then (query_selector_all w radio_selector) (answer_matrix w) s')"

subsection \<open>\<open>click_continue\<close>\<close>

text \<open>The word in the message is the form's submit caption, as its UTF-8 bytes.\<close>

definition submit_caption :: string where
  "submit_caption = [CHR 0xD8, CHR 0xA7, CHR 0xD8, CHR 0xB1, CHR 0xD8, CHR 0xB3,
                     CHR 0xD8, CHR 0xA7, CHR 0xD9, CHR 0x84]"

definition click_continue :: "world \<Rightarrow> unit m" where
  "click_continue w =
     try_except (perform w (Click submit_selector 5000)) is_timeout
       (\<lambda>e. print (''[ERROR] Could not find/click 'Continue' (or '' @ quoted submit_caption
                    @ '') on this page.''))"

subsection \<open>Pages 5 and 7: \<open>fill_page_5_or_7\<close>\<close>

text \<open>Here \<open>groups\<close> maps a name to the list of its (value, id) pairs.\<close>

fun setdefault_append :: "(string \<times> (string \<times> string) list) list \<Rightarrow> string \<Rightarrow> string \<times> string
    \<Rightarrow> (string \<times> (string \<times> string) list) list" where
  "setdefault_append [] k p = [(k, [p])]"
| "setdefault_append ((k', ps) # g) k p =
     (if k' = k then (k', ps @ [p]) # g else (k', ps) # setdefault_append g k p)"

fun label_groups :: "radio list \<Rightarrow> (string \<times> (string \<times> string) list) list
    \<Rightarrow> (string \<times> (string \<times> string) list) list" where
  "label_groups [] groups = groups"
| "label_groups (elem # elems) groups =
     (if falsy (name_attr elem) \<or> falsy (value_attr elem) \<or> falsy (id_attr elem)
      then label_groups elems groups
      else label_groups elems
             (setdefault_append groups (the (name_attr elem))
                (the (value_attr elem), the (id_attr elem))))"

definition label_selector :: "string \<Rightarrow> string" where
  \<open>label_selector chosen_id = ''label[for="'' @ chosen_id @ ''"]''\<close>

definition click_group :: "world \<Rightarrow> string \<times> (string \<times> string) list \<Rightarrow> unit m" where
  "click_group w grp =
     (case grp of (name, options) \<Rightarrow>
        and_then (random_choice w options) (\<lambda>chosen.
          case chosen of (chosen_value, chosen_id) \<Rightarrow>
            try_except
              (and_then (query_selector w (label_selector chosen_id)) (\<lambda>q.
                 if q then perform w (Click (label_selector chosen_id) 5000)
                 else print (''[WARNING] Label for id '' @ quoted chosen_id @ '' not found.'')))
              is_exception
              (\<lambda>e. print (''[ERROR] Clicking label '' @ quoted (label_selector chosen_id)
                           @ '' failed: '' @ exn_str e))))"

definition answer_labels :: "world \<Rightarrow> radio list \<Rightarrow> unit m" where
  "answer_labels w radio_elements = for_each (click_group w) (label_groups radio_elements [])"

definition fill_page_5_or_7 :: "world \<Rightarrow> unit m" where
  "fill_page_5_or_7 w s =
     (case perform w (WaitForSelector radio_selector 5000) s of
        (Exc e, s') \<Rightarrow> if is_timeout e then (Ret (), s') else (Exc e, s')
      | (Ret _, s') \<Rightarrow> and_then (query_selector_all w radio_selector) (answer_labels w) s')"

subsection \<open>\<open>main\<close>\<close>

text \<open>\<open>try: page.wait_for_timeout(1000) except: pass\<close>\<close>

definition pause :: "world \<Rightarrow> unit m" where
  "pause w = try_except (perform w (WaitForTimeout 1000)) is_exception (\<lambda>e. ret ())"

text \<open>
  The two guarded steps that open page 1. The result is \<open>True\<close> when the handler
  ran and \<open>main\<close> returns.
\<close>

definition open_page1 :: "world \<Rightarrow> bool m" where
  "open_page1 w s =
     (case perform w (Goto SITE_URL 30000) s of
        (Exc e, s1) \<Rightarrow>
          if is_timeout e
          then seq (print ''[ERROR] Could not load page 1. Check SITE_URL.'')
                 (seq (perform w BrowserClose) (ret True)) s1
          else (Exc e, s1)
      | (Ret _, s1) \<Rightarrow>
          (case perform w (WaitForSelector ''#form_container'' 10000) s1 of
             (Exc e, s2) \<Rightarrow>
               if is_timeout e
               then seq (print (''[ERROR] '' @ quoted ''#form_container'' @ '' not found on page 1.''))
                      (seq (perform w BrowserClose) (ret True)) s2
               else (Exc e, s2)
           | (Ret _, s2) \<Rightarrow> (Ret False, s2)))"

text \<open>The statements of the loop body from \<open>fill_first_page(person, page)\<close> on.\<close>

definition walk_pages :: "world \<Rightarrow> person \<Rightarrow> unit m" where
  "walk_pages w person =
     block [fill_first_page w person, pause w,
            fill_radio_matrix_page w 5000, click_continue w, pause w,
            fill_radio_matrix_page w 5000, click_continue w, pause w,
            fill_radio_matrix_page w 5000, click_continue w, pause w,
            fill_page_5_or_7 w, click_continue w, pause w,
            fill_radio_matrix_page w 5000, click_continue w, pause w,
            fill_page_5_or_7 w, click_continue w, pause w,
            fill_radio_matrix_page w 5000, click_continue w]"

text \<open>
  \<open>fill_first_page(person, page)\<close> begins with \<open>person_data.items()\<close> (line 22):
  on an element that is no dict this raises \<open>AttributeError\<close> before any call on the
  page, outside every \<open>try\<close>, and so ends the walk and \<open>main\<close>.
\<close>

definition raise :: "exn \<Rightarrow> 'a m" where
  "raise e s = (Exc e, s)"

definition walk_element :: "world \<Rightarrow> element \<Rightarrow> unit m" where
  "walk_element w elem =
     (case elem of
        Dict person \<Rightarrow> walk_pages w person
      | NonDict ty \<Rightarrow>
          raise (AttributeError (quoted ty @ '' object has no attribute '' @ quoted ''items'')))"

definition process_person :: "world \<Rightarrow> nat \<Rightarrow> element \<Rightarrow> bool m" where
  "process_person w idx person =
     seq (print ([CHR 0x0A] @ ''=== Processing person #'' @ str_nat idx @ '' ===''))
       (and_then (open_page1 w) (\<lambda>returned.
          if returned then ret True
          else seq (walk_element w person)
                 (seq (print (''=== Person #'' @ str_nat idx @ '' done. ===''))
                    (ret False))))"

text \<open>
  \<open>for idx, person in enumerate(people, start=1)\<close>; the result is \<open>True\<close> when
  the body returned from \<open>main\<close>.
\<close>

fun process_people :: "world \<Rightarrow> nat \<Rightarrow> element list \<Rightarrow> bool m" where
  "process_people w idx [] s = (Ret False, s)"
| "process_people w idx (person # people) s =
     (case process_person w idx person s of
        (Ret returned, s') \<Rightarrow>
          if returned then (Ret True, s') else process_people w (Suc idx) people s'
      | (Exc e, s') \<Rightarrow> (Exc e, s'))"

text \<open>
  The data file as \<open>main\<close> meets it: absent; present but \<open>read_text\<close> raises
  (\<open>OSError\<close>, or \<open>UnicodeDecodeError\<close> for bytes that are not UTF-8); present but
  \<open>json.loads\<close> raises \<open>JSONDecodeError\<close>; or present with contents that
  \<open>json.loads\<close> accepts, and the value it returns. \<open>json.loads\<close> accepts every
  valid JSON text and, beyond the standard, the literals \<open>NaN\<close>, \<open>Infinity\<close>
  and \<open>-Infinity\<close>; which of the two the contents are is recorded, though neither
  \<open>json.loads\<close> nor \<open>main\<close> makes a difference.
\<close>

datatype conformance = Valid_JSON | Nonstandard_Literals

datatype data_file =
    Missing
  | Unreadable exn
  | Malformed string
  | Loaded conformance loaded

text \<open>
  \<open>for idx, person in enumerate(people, start=1)\<close> raises \<open>TypeError\<close> on a value
  that cannot be iterated, once the browser and its page are open. Entering and
  leaving the \<open>with sync_playwright()\<close> block makes no call on the browser or the
  page and is not in the trace.
\<close>

definition main :: "world \<Rightarrow> data_file \<Rightarrow> unit m" where
  "main w file =
     (case file of
        Missing \<Rightarrow> print (''[ERROR] '' @ quoted DATA_FILE @ '' not found.'')
      | Unreadable e \<Rightarrow> raise e
      | Malformed msg \<Rightarrow> raise (JSONDecodeError msg)
      | Loaded conf people \<Rightarrow>
          seq (perform w (Launch PLAYWRIGHT_HEADLESS))
            (seq (perform w NewPage)
               (case people of
                  NotIterable ty \<Rightarrow> raise (TypeError (quoted ty @ '' object is not iterable''))
                | Elements elems \<Rightarrow>
                    and_then (process_people w 1 elems) (\<lambda>returned.
                      if returned then ret ()
                      else block [perform w (Input ''All done. Press Enter to close the browser...''),
                                  print ''Closing browser...'',
                                  perform w BrowserClose]))))"

subsection \<open>Observing a run\<close>

text \<open>The driver calls, and the console lines, that running \<open>f\<close> from \<open>s\<close> adds.\<close>

definition calls_of :: "'a m \<Rightarrow> state \<Rightarrow> call list" where
  "calls_of f s = drop (length (trace s)) (trace (snd (f s)))"

definition prints_of :: "'a m \<Rightarrow> state \<Rightarrow> string list" where
  "prints_of f s = drop (length (console s)) (console (snd (f s)))"

text \<open>\<open>grows f\<close>: running \<open>f\<close> only appends to the trace.\<close>

definition grows :: "'a m \<Rightarrow> bool" where
  "grows f = (\<forall>s. \<exists>new. trace (snd (f s)) = trace s @ new)"

fun is_fill :: "call \<Rightarrow> bool" where
  "is_fill (Fill sel v) = True"
| "is_fill c = False"

fun is_select :: "call \<Rightarrow> bool" where
  "is_select (SelectOption sel v) = True"
| "is_select c = False"

fun is_query :: "call \<Rightarrow> bool" where
  "is_query (QuerySelector sel) = True"
| "is_query c = False"

fun is_check :: "call \<Rightarrow> bool" where
  "is_check (Check sel) = True"
| "is_check c = False"

text \<open>The level of a console line is its bracketed prefix.\<close>

definition is_warning :: "string \<Rightarrow> bool" where
  "is_warning msg = (take 9 msg = ''[WARNING]'')"

definition is_error :: "string \<Rightarrow> bool" where
  "is_error msg = (take 7 msg = ''[ERROR]'')"

text \<open>
  Whether the contents of the data file are valid JSON (an absent or unreadable file
  has no contents to be valid).
\<close>

fun valid_json :: "data_file \<Rightarrow> bool" where
  "valid_json (Loaded Valid_JSON people) = True"
| "valid_json file = False"

subsection \<open>The radios of a page, group by group\<close>

text \<open>The radios each filler keeps: those that pass its attribute test.\<close>

definition answerable_matrix :: "radio \<Rightarrow> bool" where
  "answerable_matrix elem = (\<not> falsy (name_attr elem) \<and> \<not> falsy (value_attr elem))"

definition answerable_label :: "radio \<Rightarrow> bool" where
  "answerable_label elem =
     (\<not> falsy (name_attr elem) \<and> \<not> falsy (value_attr elem) \<and> \<not> falsy (id_attr elem))"


definition options_of :: "string \<Rightarrow> radio list \<Rightarrow> (string \<times> string) list" where
  "options_of n elems =
     map (\<lambda>e. (the (value_attr e), the (id_attr e)))
       (filter (\<lambda>e. answerable_label e \<and> name_attr e = Some n) elems)"

text \<open>
  The selectors the radio-matrix loop looks up and the ids the label-click loop
  chooses, group by group, when \<open>h\<close> holds the bounds requested of the generator so
  far. A group whose choice raises ends the loop.
\<close>

fun matrix_choices :: "world \<Rightarrow> nat list \<Rightarrow> (string \<times> string list) list \<Rightarrow> string list" where
  "matrix_choices w h [] = []"
| "matrix_choices w h ((name, value_set) # groups) =
     (let values = set_iter w value_set; requests = h @ [length values]
      in if randbelow w requests < length values
         then matrix_selector name (values ! randbelow w requests)
              # matrix_choices w requests groups
         else [])"

fun label_choices :: "world \<Rightarrow> nat list \<Rightarrow> (string \<times> (string \<times> string) list) list \<Rightarrow> string list" where
  "label_choices w h [] = []"
| "label_choices w h ((name, options) # groups) =
     (let requests = h @ [length options]
      in if randbelow w requests < length options
         then snd (options ! randbelow w requests) # label_choices w requests groups
         else [])"

subsection \<open>The answering loops as the specification words them\<close>

text \<open>
  The specification's account of the two fillers, for comparison with the loops of
  the source. For each chosen selector in turn, after the calls \<open>h\<close> made so far: the
  control is looked up, and the action (check, or click with a 5000 ms wait) follows
  on the same selector exactly when the lookup returns a control.
\<close>

fun spec_answers :: "world \<Rightarrow> (string \<Rightarrow> call) \<Rightarrow> call list \<Rightarrow> string list \<Rightarrow> call list" where
  "spec_answers w act h [] = []"
| "spec_answers w act h (sel # sels) =
     (let answer = QuerySelector sel #
                   (if raises w (h @ [QuerySelector sel]) = None \<and> found w (h @ [QuerySelector sel])
                    then [act sel] else [])
      in answer @ spec_answers w act (h @ answer) sels)"

text \<open>
  "Missing label: warning, no failure"; an exception of the lookup or of the click is
  what the source prints for it, an error line. One line at most for each chosen id.
\<close>

definition label_missing :: "string \<Rightarrow> string" where
  "label_missing chosen_id = ''[WARNING] Label for id '' @ quoted chosen_id @ '' not found.''"

definition label_failed :: "string \<Rightarrow> exn \<Rightarrow> string" where
  "label_failed chosen_id e =
     ''[ERROR] Clicking label '' @ quoted (label_selector chosen_id) @ '' failed: '' @ exn_str e"

fun spec_label_prints :: "world \<Rightarrow> call list \<Rightarrow> string list \<Rightarrow> string list" where
  "spec_label_prints w h [] = []"
| "spec_label_prints w h (chosen_id # ids) =
     (let lookup = h @ [QuerySelector (label_selector chosen_id)];
          click = lookup @ [Click (label_selector chosen_id) 5000]
      in case raises w lookup of
           Some e \<Rightarrow> label_failed chosen_id e # spec_label_prints w lookup ids
         | None \<Rightarrow>
             if found w lookup
             then (case raises w click of
                     Some e \<Rightarrow> label_failed chosen_id e # spec_label_prints w click ids
                   | None \<Rightarrow> spec_label_prints w click ids)
             else label_missing chosen_id # spec_label_prints w lookup ids)"

subsection \<open>The exceptions the walk handles\<close>

text \<open>
  The exceptions the page walk handles, by the call that raises them: any exception of
  a lookup, fill, select, check or label click (inside \<open>except Exception\<close>) and of
  the settle pause (inside the bare \<open>except\<close>); only a timeout of the Continue click
  and of the wait for radios (inside \<open>except PlaywrightTimeoutError\<close>); nothing of
  \<open>query_selector_all\<close>, which no \<open>try\<close> encloses.
\<close>

fun recoverable :: "call \<Rightarrow> exn \<Rightarrow> bool" where
  "recoverable (QuerySelector sel) e = True"
| "recoverable (Fill sel v) e = True"
| "recoverable (SelectOption sel v) e = True"
| "recoverable (Check sel) e = True"
| "recoverable (Click sel t) e = (sel \<noteq> submit_selector \<or> is_timeout e)"
| "recoverable (WaitForTimeout t) e = True"
| "recoverable (WaitForSelector sel t) e = is_timeout e"
| "recoverable c e = False"

subsection \<open>The page walk as the specification words it\<close>






text \<open>
  The calls that mark the walk: the Continue click, the settle pause and the wait that
  opens each fill strategy of pages 2 to 8. \<open>marks c ms\<close>: whenever \<open>c\<close> returns
  normally, the calls it made extend the trace and their markers are \<open>ms\<close>.
\<close>

definition is_marker :: "call \<Rightarrow> bool" where
  "is_marker c = (c = Click submit_selector 5000 \<or> c = WaitForTimeout 1000
                  \<or> c = WaitForSelector radio_selector 5000)"


subsection \<open>Concrete worlds and inputs\<close>

definition s0 :: state where
  "s0 = \<lparr>trace = [], console = [], draws = []\<rparr>"

text \<open>A page where nothing raises and every lookup finds its control.\<close>

definition world_ok :: world where
  "world_ok = \<lparr>raises = (\<lambda>h. None), found = (\<lambda>h. True), radios = (\<lambda>h. []),
                randbelow = (\<lambda>h. 0), set_iter = (\<lambda>vs. vs)\<rparr>"

text \<open>A page on which no radio control appears within the wait.\<close>

definition world_no_radios :: world where
  "world_no_radios =
     \<lparr>raises = (\<lambda>h. if last h = WaitForSelector radio_selector 5000
                      then Some (PlaywrightTimeoutError ''Timeout 5000ms exceeded.'') else None),
      found = (\<lambda>h. True), radios = (\<lambda>h. []), randbelow = (\<lambda>h. 0), set_iter = (\<lambda>vs. vs)\<rparr>"

definition person_ali :: person where
  "person_ali = [(''element_2'', JStr ''Ali''), (''element_3'', JStr ''Rezaei'')]"

text \<open>A site whose page 1 never shows its form container.\<close>

definition world_no_container :: world where
  "world_no_container =
     \<lparr>raises = (\<lambda>h. if last h = WaitForSelector ''#form_container'' 10000
                      then Some (PlaywrightTimeoutError ''Timeout 10000ms exceeded.'') else None),
      found = (\<lambda>h. True), radios = (\<lambda>h. []), randbelow = (\<lambda>h. 0), set_iter = (\<lambda>vs. vs)\<rparr>"

text \<open>A page whose radios lack a name or a value.\<close>

definition page_unnamed :: "radio list" where
  "page_unnamed = [\<lparr>name_attr = None, value_attr = Some ''1'', id_attr = Some ''a''\<rparr>,
                   \<lparr>name_attr = Some ''q1'', value_attr = None, id_attr = Some ''b''\<rparr>]"

text \<open>A page with one labelled radio whose label click raises.\<close>

definition world_label_click_fails :: world where
  "world_label_click_fails =
     \<lparr>raises = (\<lambda>h. if last h = Click (label_selector ''a'') 5000
                      then Some (PlaywrightError ''intercepted'') else None),
      found = (\<lambda>h. True),
      radios = (\<lambda>h. [\<lparr>name_attr = Some ''q1'', value_attr = Some ''1'', id_attr = Some ''a''\<rparr>]),
      randbelow = (\<lambda>h. 0), set_iter = (\<lambda>vs. vs)\<rparr>"

text \<open>A matrix page with one group of three values, and worlds showing it.\<close>

definition page_q1 :: "radio list" where
  "page_q1 = [\<lparr>name_attr = Some ''q1'', value_attr = Some ''1'', id_attr = Some ''a''\<rparr>,
              \<lparr>name_attr = Some ''q1'', value_attr = Some ''2'', id_attr = Some ''b''\<rparr>,
              \<lparr>name_attr = Some ''q1'', value_attr = Some ''3'', id_attr = Some ''c''\<rparr>]"

definition world_q1 :: world where
  "world_q1 = \<lparr>raises = (\<lambda>h. None), found = (\<lambda>h. True), radios = (\<lambda>h. page_q1),
                randbelow = (\<lambda>h. 0), set_iter = (\<lambda>vs. vs)\<rparr>"

definition world_q1_unmatched :: world where
  "world_q1_unmatched = world_q1\<lparr>found := (\<lambda>h. False)\<rparr>"

text \<open>The same page and seed in a process whose sets iterate in the opposite order.\<close>

definition world_q1_rev :: world where
  "world_q1_rev = world_q1\<lparr>set_iter := rev\<rparr>"

text \<open>
  The specification's matrix page: the group \<open>q1\<close> with the values 1, 2, 3 and the
  group \<open>q2\<close> with the values 1, 2, the radios of the two groups interleaved. The
  generator returns the last index of each bound: 2 of 3, then 1 of 2.
\<close>

definition page_q12 :: "radio list" where
  "page_q12 = [\<lparr>name_attr = Some ''q1'', value_attr = Some ''1'', id_attr = Some ''a''\<rparr>,
               \<lparr>name_attr = Some ''q2'', value_attr = Some ''1'', id_attr = Some ''d''\<rparr>,
               \<lparr>name_attr = Some ''q1'', value_attr = Some ''2'', id_attr = Some ''b''\<rparr>,
               \<lparr>name_attr = Some ''q2'', value_attr = Some ''2'', id_attr = Some ''e''\<rparr>,
               \<lparr>name_attr = Some ''q1'', value_attr = Some ''3'', id_attr = Some ''c''\<rparr>,
               \<lparr>name_attr = Some ''q1'', value_attr = Some ''2'', id_attr = None\<rparr>]"


text \<open>The same page where the label of \<open>c\<close> is missing and the click on \<open>e\<close>'s raises.\<close>

definition world_q12_labels :: world where
  "world_q12_labels =
     \<lparr>raises = (\<lambda>h. if last h = Click (label_selector ''e'') 5000
                      then Some (PlaywrightError ''intercepted'') else None),
      found = (\<lambda>h. last h \<noteq> QuerySelector (label_selector ''c'')),
      radios = (\<lambda>h. page_q12),
      randbelow = (\<lambda>h. last h - 1), set_iter = (\<lambda>vs. vs)\<rparr>"

text \<open>Sites whose Continue click fails: with another driver error, or by timing out.\<close>

definition world_continue_error :: world where
  "world_continue_error =
     \<lparr>raises = (\<lambda>h. if last h = Click submit_selector 5000
                      then Some (PlaywrightError ''Target closed'') else None),
      found = (\<lambda>h. True), radios = (\<lambda>h. []), randbelow = (\<lambda>h. 0), set_iter = (\<lambda>vs. vs)\<rparr>"

definition world_continue_timeout :: world where
  "world_continue_timeout =
     \<lparr>raises = (\<lambda>h. if last h = Click submit_selector 5000
                      then Some (PlaywrightTimeoutError ''Timeout 5000ms exceeded.'') else None),
      found = (\<lambda>h. True), radios = (\<lambda>h. []), randbelow = (\<lambda>h. 0), set_iter = (\<lambda>vs. vs)\<rparr>"

text \<open>
  A site where every action fails: a fill raises, a check raises, the click on a
  label raises, and the Continue click times out. Its pages show the radios of
  \<open>page_q12\<close>.
\<close>

definition world_flaky :: world where
  "world_flaky =
     \<lparr>raises = (\<lambda>h. case last h of
                      Fill sel v \<Rightarrow> Some (PlaywrightError ''detached'')
                    | Check sel \<Rightarrow> Some (PlaywrightError ''not attached'')
                    | Click sel t \<Rightarrow>
                        if sel = submit_selector
                        then Some (PlaywrightTimeoutError ''Timeout 5000ms exceeded.'')
                        else Some (PlaywrightError ''intercepted'')
                    | _ \<Rightarrow> None),
      found = (\<lambda>h. True), radios = (\<lambda>h. page_q12),
      randbelow = (\<lambda>h. 0), set_iter = (\<lambda>vs. vs)\<rparr>"

text \<open>
  Two data files that are not valid JSON and that \<open>json.loads\<close> accepts: \<open>[NaN]\<close>,
  whose one element is a float, and a record one of whose values is \<open>NaN\<close>.
\<close>

definition file_nan_list :: data_file where
  "file_nan_list = Loaded Nonstandard_Literals (Elements [NonDict ''float''])"

definition file_nan_field :: data_file where
  "file_nan_field = Loaded Nonstandard_Literals (Elements [Dict [(''element_2'', JFloat ''nan'')]])"

section \<open>Properties\<close>

subsection \<open>The driver primitives\<close>

lemma perform_eq:
  "perform w c s =
     (case raises w (trace s @ [c]) of
        None \<Rightarrow> (Ret (), s\<lparr>trace := trace s @ [c]\<rparr>)
      | Some e \<Rightarrow> (Exc e, s\<lparr>trace := trace s @ [c]\<rparr>))"
  by (simp add: perform_def Let_def)

lemma query_selector_eq:
  "query_selector w sel s =
     (case raises w (trace s @ [QuerySelector sel]) of
        None \<Rightarrow> (Ret (found w (trace s @ [QuerySelector sel])),
                 s\<lparr>trace := trace s @ [QuerySelector sel]\<rparr>)
      | Some e \<Rightarrow> (Exc e, s\<lparr>trace := trace s @ [QuerySelector sel]\<rparr>))"
  by (simp add: query_selector_def Let_def split: option.splits)

subsection \<open>Page 1\<close>

lemma selector_select_neq_input: "selector_select g \<noteq> selector_input f"
  by (simp add: selector_select_def selector_input_def)

lemma fill_field_matched:
  assumes "raises w (trace s @ [QuerySelector (selector_input f)]) = None"
    and "found w (trace s @ [QuerySelector (selector_input f)])"
  shows "fst (fill_field w (f, v) s) = Ret ()"
    and "trace (snd (fill_field w (f, v) s))
           = trace s @ [QuerySelector (selector_input f), Fill (selector_input f) (str v)]"
  using assms
  by (simp_all add: fill_field_def try_except_def and_then_def query_selector_eq perform_eq
        print_def is_exception_def split: option.splits)

lemma for_each_fill_matched:
  assumes "\<forall>h. \<forall>(f, v) \<in> set person.
             raises w (h @ [QuerySelector (selector_input f)]) = None
           \<and> found w (h @ [QuerySelector (selector_input f)])"
  shows "fst (for_each (fill_field w) person s) = Ret ()
       \<and> trace (snd (for_each (fill_field w) person s))
           = trace s @ concat (map (\<lambda>(f, v). [QuerySelector (selector_input f),
                                                Fill (selector_input f) (str v)]) person)"
  using assms
proof (induction person arbitrary: s)
  case Nil
  then show ?case by simp
next
  case (Cons item person)
  obtain f v where item: "item = (f, v)" by (cases item)
  obtain r s' where step: "fill_field w (f, v) s = (r, s')" by (cases "fill_field w (f, v) s")
  from Cons.prems item have m: "raises w (trace s @ [QuerySelector (selector_input f)]) = None"
    "found w (trace s @ [QuerySelector (selector_input f)])" by auto
  from fill_field_matched [OF m, of v] step
  have r: "r = Ret ()"
    and t: "trace s' = trace s @ [QuerySelector (selector_input f), Fill (selector_input f) (str v)]"
    by simp_all
  from Cons.prems have "\<forall>h. \<forall>(f, v) \<in> set person.
             raises w (h @ [QuerySelector (selector_input f)]) = None
           \<and> found w (h @ [QuerySelector (selector_input f)])" by auto
  from Cons.IH [OF this, of s'] show ?case
    by (simp add: item step r t)
qed

lemma fill_first_page_matched:
  assumes "\<forall>h. \<forall>(f, v) \<in> set person.
             raises w (h @ [QuerySelector (selector_input f)]) = None
           \<and> found w (h @ [QuerySelector (selector_input f)])"
  shows "calls_of (fill_first_page w person) s
           = concat (map (\<lambda>(f, v). [QuerySelector (selector_input f),
                                      Fill (selector_input f) (str v)]) person)
             @ [Click submit_selector 5000]"
proof -
  obtain s1 where s1: "for_each (fill_field w) person s = (Ret (), s1)"
    using for_each_fill_matched [OF assms, of s]
    by (cases "for_each (fill_field w) person s") auto
  have t1: "trace s1 = trace s @ concat (map (\<lambda>(f, v). [QuerySelector (selector_input f),
                                      Fill (selector_input f) (str v)]) person)"
    using for_each_fill_matched [OF assms, of s] s1 by simp
  show ?thesis
    by (simp add: calls_of_def fill_first_page_def seq_def and_then_def s1 try_except_def
          perform_eq print_def t1 split: option.splits)
qed

lemma fill_field_select_lookup:
  assumes "QuerySelector (selector_select f) \<in> set (calls_of (fill_field w (f, v)) s)"
  shows "raises w (trace s @ [QuerySelector (selector_input f)]) = None
       \<and> \<not> found w (trace s @ [QuerySelector (selector_input f)])"
  using assms
  by (auto simp add: calls_of_def fill_field_def try_except_def and_then_def query_selector_eq
        perform_eq print_def is_exception_def selector_select_neq_input
        split: option.splits if_splits)

text \<open>
  C5. When the text-input lookup of every field of a person record finds a control,
  the page-1 filler issues one fill per field, in the record's order, each on the
  field's input selector with the string form of the value (\<open>str (JStr x) = x\<close> for a
  string value), so exactly as many fills as fields; it issues no select action and
  no select lookup. In any world, the select lookup of a field is issued only when
  the input lookup returned without raising and found nothing.
\<close>

theorem C5_page1_fills_only:
  assumes "\<forall>h. \<forall>(f, v) \<in> set person.
             raises w (h @ [QuerySelector (selector_input f)]) = None
           \<and> found w (h @ [QuerySelector (selector_input f)])"
  shows "filter is_fill (calls_of (fill_first_page w person) s)
           = map (\<lambda>(f, v). Fill (selector_input f) (str v)) person
       \<and> length (filter is_fill (calls_of (fill_first_page w person) s)) = length person
       \<and> filter is_select (calls_of (fill_first_page w person) s) = []
       \<and> (\<forall>g. QuerySelector (selector_select g) \<notin> set (calls_of (fill_first_page w person) s))
       \<and> (QuerySelector (selector_select f') \<in> set (calls_of (fill_field w' (f', v')) s')
            \<longrightarrow> raises w' (trace s' @ [QuerySelector (selector_input f')]) = None
              \<and> \<not> found w' (trace s' @ [QuerySelector (selector_input f')]))"
proof -
  let ?new = "calls_of (fill_first_page w person) s"
  have new: "?new = concat (map (\<lambda>(f, v). [QuerySelector (selector_input f),
                                      Fill (selector_input f) (str v)]) person)
             @ [Click submit_selector 5000]"
    by (rule fill_first_page_matched [OF assms])
  have fills: "filter is_fill ?new = map (\<lambda>(f, v). Fill (selector_input f) (str v)) person"
    unfolding new by (induction person) auto
  have sels: "filter is_select ?new = []"
    unfolding new by (induction person) auto
  have nolook: "\<forall>g. QuerySelector (selector_select g) \<notin> set ?new"
    unfolding new by (auto simp add: selector_select_neq_input)
  from fills have len: "length (filter is_fill ?new) = length person" by simp
  from fills len sels nolook fill_field_select_lookup [of f' w' v' s'] show ?thesis by blast
qed

theorem C5_page1_fills_only_witness:
  "raises world_ok = (\<lambda>h. None) \<and> found world_ok = (\<lambda>h. True)
   \<and> filter is_fill (calls_of (fill_first_page world_ok person_ali) s0)
       = [Fill (selector_input ''element_2'') ''Ali'', Fill (selector_input ''element_3'') ''Rezaei'']
   \<and> filter is_select (calls_of (fill_first_page world_ok person_ali) s0) = []"
  using C5_page1_fills_only [of person_ali world_ok s0]
  by (simp add: person_ali_def world_ok_def)

subsection \<open>Pages without radios\<close>

text \<open>
  C7. When the wait for a radio control times out (5000 ms in both fillers as
  \<open>main\<close> calls them), the radio-matrix filler and the label-click filler return
  normally; the wait is the only driver call they make, so there is no lookup, check
  or click, nothing is printed and no random draw is consumed.
\<close>

theorem C7_no_radios_no_action:
  assumes "raises w (trace s @ [WaitForSelector radio_selector 5000]) = Some e"
    and "is_timeout e"
  shows "fill_radio_matrix_page w 5000 s
           = (Ret (), s\<lparr>trace := trace s @ [WaitForSelector radio_selector 5000]\<rparr>)
       \<and> fill_page_5_or_7 w s
           = (Ret (), s\<lparr>trace := trace s @ [WaitForSelector radio_selector 5000]\<rparr>)"
  using assms by (simp add: fill_radio_matrix_page_def fill_page_5_or_7_def perform_eq)

theorem C7_no_radios_no_action_witness:
  "raises world_no_radios (trace s0 @ [WaitForSelector radio_selector 5000])
     = Some (PlaywrightTimeoutError ''Timeout 5000ms exceeded.'')
   \<and> is_timeout (PlaywrightTimeoutError ''Timeout 5000ms exceeded.'')
   \<and> fill_radio_matrix_page world_no_radios 5000 s0
       = (Ret (), \<lparr>trace = [WaitForSelector radio_selector 5000], console = [], draws = []\<rparr>)
   \<and> fill_page_5_or_7 world_no_radios s0
       = (Ret (), \<lparr>trace = [WaitForSelector radio_selector 5000], console = [], draws = []\<rparr>)"
  using C7_no_radios_no_action [of world_no_radios s0 "PlaywrightTimeoutError ''Timeout 5000ms exceeded.''"]
  by (simp add: world_no_radios_def s0_def)

subsection \<open>Grouping the radios\<close>

lemma matrix_groups_filter:
  "matrix_groups (filter answerable_matrix elems) groups = matrix_groups elems groups"
  by (induction elems arbitrary: groups) (simp_all add: answerable_matrix_def)

lemma label_groups_filter:
  "label_groups (filter answerable_label elems) groups = label_groups elems groups"
  by (induction elems arbitrary: groups) (simp_all add: answerable_label_def)

lemma keys_setdefault_add: "fst ` set (setdefault_add g k v) = insert k (fst ` set g)"
  by (induction g k v rule: setdefault_add.induct) auto

lemma keys_setdefault_append: "fst ` set (setdefault_append g k p) = insert k (fst ` set g)"
  by (induction g k p rule: setdefault_append.induct) auto

lemma keys_matrix_groups:
  "fst ` set (matrix_groups elems g)
     = fst ` set g \<union> {the (name_attr e) | e. e \<in> set elems \<and> answerable_matrix e}"
  by (induction elems arbitrary: g) (auto simp add: keys_setdefault_add answerable_matrix_def)

lemma keys_label_groups:
  "fst ` set (label_groups elems g)
     = fst ` set g \<union> {the (name_attr e) | e. e \<in> set elems \<and> answerable_label e}"
  by (induction elems arbitrary: g) (auto simp add: keys_setdefault_append answerable_label_def)

lemma perform_radios [simp]: "perform (w\<lparr>radios := r\<rparr>) = perform w"
  by (rule ext)+ (simp add: perform_def)

lemma query_selector_radios [simp]: "query_selector (w\<lparr>radios := r\<rparr>) = query_selector w"
  by (rule ext)+ (simp add: query_selector_def Let_def split: option.splits)

lemma random_choice_radios [simp]: "random_choice (w\<lparr>radios := r\<rparr>) = random_choice w"
  by (rule ext)+ (simp add: random_choice_def)

lemma check_group_radios [simp]: "check_group (w\<lparr>radios := r\<rparr>) = check_group w"
  by (rule ext)+ (simp add: check_group_def split: prod.splits cong: if_cong)

lemma click_group_radios [simp]: "click_group (w\<lparr>radios := r\<rparr>) = click_group w"
  by (rule ext)+ (simp add: click_group_def split: prod.splits cong: if_cong)

lemma fill_radio_matrix_page_filter:
  "fill_radio_matrix_page (w\<lparr>radios := filter answerable_matrix \<circ> radios w\<rparr>) timeout s
     = fill_radio_matrix_page w timeout s"
  by (simp add: fill_radio_matrix_page_def and_then_def query_selector_all_def Let_def
        answer_matrix_def matrix_groups_filter split: prod.splits res.splits option.splits)

lemma fill_page_5_or_7_filter:
  "fill_page_5_or_7 (w\<lparr>radios := filter answerable_label \<circ> radios w\<rparr>) s = fill_page_5_or_7 w s"
  by (simp add: fill_page_5_or_7_def and_then_def query_selector_all_def Let_def
        answer_labels_def label_groups_filter split: prod.splits res.splits option.splits)

lemma matrix_groups_none:
  "\<forall>e \<in> set elems. name_attr e = None \<or> value_attr e = None \<Longrightarrow> matrix_groups elems g = g"
  by (induction elems arbitrary: g) (auto simp add: falsy_def)

lemma label_groups_none:
  "\<forall>e \<in> set elems. name_attr e = None \<or> value_attr e = None \<or> id_attr e = None
     \<Longrightarrow> label_groups elems g = g"
  by (induction elems arbitrary: g) (auto simp add: falsy_def)

text \<open>
  C10. A radio whose name or value (for the label-click filler: name, value or id) is
  absent fails the filler's attribute test, and the radios that fail it leave no mark:
  each filler behaves on the page exactly as on the page without them, in its result,
  its driver calls and its console output, so nothing is printed for them. A name all
  of whose radios lack the attribute is not among the groups, and when every radio
  of the page lacks one the answering loop does nothing at all.
\<close>

theorem C10_unusable_radios_silently_skipped:
  "fill_radio_matrix_page (w\<lparr>radios := filter answerable_matrix \<circ> radios w\<rparr>) timeout s
     = fill_radio_matrix_page w timeout s
   \<and> fill_page_5_or_7 (w\<lparr>radios := filter answerable_label \<circ> radios w\<rparr>) s = fill_page_5_or_7 w s
   \<and> ((name_attr elem = None \<or> value_attr elem = None) \<longrightarrow> \<not> answerable_matrix elem)
   \<and> ((name_attr elem = None \<or> value_attr elem = None \<or> id_attr elem = None)
        \<longrightarrow> \<not> answerable_label elem)
   \<and> ((\<forall>e \<in> set elems. name_attr e = Some n \<longrightarrow> value_attr e = None)
        \<longrightarrow> n \<notin> fst ` set (matrix_groups elems []))
   \<and> ((\<forall>e \<in> set elems. name_attr e = Some n \<longrightarrow> value_attr e = None \<or> id_attr e = None)
        \<longrightarrow> n \<notin> fst ` set (label_groups elems []))
   \<and> ((\<forall>e \<in> set elems. name_attr e = None \<or> value_attr e = None)
        \<longrightarrow> answer_matrix w elems s = (Ret (), s))
   \<and> ((\<forall>e \<in> set elems. name_attr e = None \<or> value_attr e = None \<or> id_attr e = None)
        \<longrightarrow> answer_labels w elems s = (Ret (), s))"
proof -
  have a: "(\<forall>e \<in> set elems. name_attr e = Some n \<longrightarrow> value_attr e = None)
        \<longrightarrow> n \<notin> fst ` set (matrix_groups elems [])"
    by (auto simp add: keys_matrix_groups answerable_matrix_def falsy_def)
  have b: "(\<forall>e \<in> set elems. name_attr e = Some n \<longrightarrow> value_attr e = None \<or> id_attr e = None)
        \<longrightarrow> n \<notin> fst ` set (label_groups elems [])"
    by (auto simp add: keys_label_groups answerable_label_def falsy_def)
  have c: "(\<forall>e \<in> set elems. name_attr e = None \<or> value_attr e = None)
        \<longrightarrow> answer_matrix w elems s = (Ret (), s)"
    by (simp add: answer_matrix_def matrix_groups_none)
  have d: "(\<forall>e \<in> set elems. name_attr e = None \<or> value_attr e = None \<or> id_attr e = None)
        \<longrightarrow> answer_labels w elems s = (Ret (), s)"
    by (simp add: answer_labels_def label_groups_none)
  have e: "(name_attr elem = None \<or> value_attr elem = None) \<longrightarrow> \<not> answerable_matrix elem"
    by (auto simp add: answerable_matrix_def falsy_def)
  have f: "(name_attr elem = None \<or> value_attr elem = None \<or> id_attr elem = None)
        \<longrightarrow> \<not> answerable_label elem"
    by (auto simp add: answerable_label_def falsy_def)
  from a b c d e f fill_radio_matrix_page_filter [of w timeout s] fill_page_5_or_7_filter [of w s]
  show ?thesis by blast
qed

theorem C10_unusable_radios_silently_skipped_witness:
  "''q1'' \<notin> fst ` set (matrix_groups page_unnamed [])
   \<and> ''q1'' \<notin> fst ` set (label_groups page_unnamed [])
   \<and> answer_matrix world_ok page_unnamed s0 = (Ret (), s0)
   \<and> answer_labels world_ok page_unnamed s0 = (Ret (), s0)
   \<and> \<not> answerable_matrix \<lparr>name_attr = None, value_attr = Some ''1'', id_attr = Some ''a''\<rparr>
   \<and> \<not> answerable_label \<lparr>name_attr = None, value_attr = Some ''1'', id_attr = Some ''a''\<rparr>"
  using C10_unusable_radios_silently_skipped [of world_ok 5000 s0
      "\<lparr>name_attr = None, value_attr = Some ''1'', id_attr = Some ''a''\<rparr>" page_unnamed "''q1''"]
  by (simp add: page_unnamed_def)

subsection \<open>The trace only grows\<close>

lemma growsI: "(\<And>s. \<exists>new. trace (snd (f s)) = trace s @ new) \<Longrightarrow> grows f"
  by (simp add: grows_def)

lemma growsD: "grows f \<Longrightarrow> \<exists>new. trace (snd (f s)) = trace s @ new"
  by (simp add: grows_def)

lemma grows_ret: "grows (ret x)"
  by (simp add: grows_def ret_def)

lemma grows_raise: "grows (raise e)"
  by (simp add: grows_def raise_def)

lemma grows_print: "grows (print msg)"
  by (simp add: grows_def print_def)

lemma grows_perform: "grows (perform w c)"
  by (simp add: grows_def perform_eq split: option.splits)

lemma grows_query_selector: "grows (query_selector w sel)"
  by (simp add: grows_def query_selector_eq split: option.splits)

lemma grows_query_selector_all: "grows (query_selector_all w sel)"
  by (simp add: grows_def query_selector_all_def Let_def split: option.splits)

lemma grows_random_choice: "grows (random_choice w xs)"
  by (simp add: grows_def random_choice_def Let_def)

lemma grows_and_then:
  assumes "grows f" and "\<And>x. grows (g x)"
  shows "grows (and_then f g)"
proof (rule growsI)
  fix s
  obtain r s1 where step: "f s = (r, s1)" by (cases "f s")
  from growsD [OF assms(1), of s] step obtain n1 where n1: "trace s1 = trace s @ n1" by auto
  show "\<exists>new. trace (snd (and_then f g s)) = trace s @ new"
  proof (cases r)
    case (Exc e)
    with step n1 show ?thesis by (simp add: and_then_def)
  next
    case (Ret x)
    from growsD [OF assms(2), of x s1] obtain n2 where "trace (snd (g x s1)) = trace s1 @ n2" by auto
    with step Ret n1 have "trace (snd (and_then f g s)) = trace s @ (n1 @ n2)"
      by (simp add: and_then_def)
    then show ?thesis by blast
  qed
qed

lemma grows_seq: "grows f \<Longrightarrow> grows g \<Longrightarrow> grows (seq f g)"
  by (simp add: seq_def grows_and_then)

lemma grows_try_except:
  assumes "grows body" and "\<And>e. grows (handler e)"
  shows "grows (try_except body catches handler)"
proof (rule growsI)
  fix s
  obtain r s1 where step: "body s = (r, s1)" by (cases "body s")
  from growsD [OF assms(1), of s] step obtain n1 where n1: "trace s1 = trace s @ n1" by auto
  show "\<exists>new. trace (snd (try_except body catches handler s)) = trace s @ new"
  proof (cases r)
    case (Ret x)
    with step n1 show ?thesis by (simp add: try_except_def)
  next
    case (Exc e)
    from growsD [OF assms(2), of e s1] obtain n2 where "trace (snd (handler e s1)) = trace s1 @ n2"
      by auto
    with step Exc n1 have "trace (snd (try_except body catches handler s))
        = trace s @ (if catches e then n1 @ n2 else n1)"
      by (simp add: try_except_def)
    then show ?thesis by blast
  qed
qed

lemma grows_for_each:
  assumes "\<And>x. grows (f x)"
  shows "grows (for_each f xs)"
proof (rule growsI)
  fix s
  show "\<exists>new. trace (snd (for_each f xs s)) = trace s @ new"
  proof (induction xs arbitrary: s)
    case Nil
    then show ?case by simp
  next
    case (Cons x xs)
    obtain r s1 where step: "f x s = (r, s1)" by (cases "f x s")
    from growsD [OF assms, of x s] step obtain n1 where n1: "trace s1 = trace s @ n1" by auto
    show ?case
    proof (cases r)
      case (Exc e)
      with step n1 show ?thesis by simp
    next
      case (Ret u)
      from Cons.IH [of s1] obtain n2 where "trace (snd (for_each f xs s1)) = trace s1 @ n2" by auto
      with step Ret n1 have "trace (snd (for_each f (x # xs) s)) = trace s @ (n1 @ n2)" by simp
      then show ?thesis by blast
    qed
  qed
qed

lemma grows_block:
  assumes "\<And>c. c \<in> set cs \<Longrightarrow> grows c"
  shows "grows (block cs)"
  using assms
  by (induction cs) (simp_all add: grows_ret grows_seq)

lemma grows_if: "grows f \<Longrightarrow> grows g \<Longrightarrow> grows (if b then f else g)"
  by simp

lemma grows_fill_field: "grows (fill_field w item)"
  by (cases item)
     (simp add: fill_field_def grows_try_except grows_and_then grows_query_selector grows_perform
        grows_print)

lemma grows_fill_first_page: "grows (fill_first_page w person)"
  by (simp add: fill_first_page_def grows_seq grows_for_each grows_fill_field grows_try_except
        grows_perform grows_print)

lemma grows_check_group: "grows (check_group w grp)"
  by (cases grp)
     (simp add: check_group_def grows_try_except grows_and_then grows_query_selector grows_perform
        grows_print grows_random_choice)

lemma grows_click_group: "grows (click_group w grp)"
  by (cases grp)
     (simp add: click_group_def grows_try_except grows_and_then grows_query_selector grows_perform
        grows_print grows_random_choice case_prod_beta)

lemma grows_after_wait:
  assumes "grows f"
  shows "grows (\<lambda>s. case perform w c s of
                       (Exc e, s') \<Rightarrow> if is_timeout e then (Ret (), s') else (Exc e, s')
                     | (Ret u, s') \<Rightarrow> f s')"
proof (rule growsI)
  fix s
  from growsD [OF assms, of "s\<lparr>trace := trace s @ [c]\<rparr>"]
  obtain n where "trace (snd (f (s\<lparr>trace := trace s @ [c]\<rparr>))) = trace s @ ([c] @ n)" by auto
  then show "\<exists>new. trace (snd (case perform w c s of
                       (Exc e, s') \<Rightarrow> if is_timeout e then (Ret (), s') else (Exc e, s')
                     | (Ret u, s') \<Rightarrow> f s')) = trace s @ new"
    by (cases "raises w (trace s @ [c])") (auto simp add: perform_eq)
qed

lemma grows_fill_radio_matrix_page: "grows (fill_radio_matrix_page w timeout)"
proof -
  have "grows (and_then (query_selector_all w radio_selector) (answer_matrix w))"
    by (simp add: grows_and_then grows_query_selector_all answer_matrix_def grows_for_each
          grows_check_group)
  from grows_after_wait [OF this, of w "WaitForSelector radio_selector timeout"]
  show ?thesis
    by (simp add: grows_def fill_radio_matrix_page_def)
qed

lemma grows_fill_page_5_or_7: "grows (fill_page_5_or_7 w)"
proof -
  have "grows (and_then (query_selector_all w radio_selector) (answer_labels w))"
    by (simp add: grows_and_then grows_query_selector_all answer_labels_def grows_for_each
          grows_click_group)
  from grows_after_wait [OF this, of w "WaitForSelector radio_selector 5000"]
  show ?thesis
    by (simp add: grows_def fill_page_5_or_7_def)
qed

lemma grows_click_continue: "grows (click_continue w)"
  by (simp add: click_continue_def grows_try_except grows_perform grows_print)

lemma grows_pause: "grows (pause w)"
  by (simp add: pause_def grows_try_except grows_perform grows_ret)

lemma grows_walk_pages: "grows (walk_pages w person)"
  unfolding walk_pages_def
  by (rule grows_block)
     (auto simp add: grows_fill_first_page grows_pause grows_fill_radio_matrix_page
        grows_click_continue grows_fill_page_5_or_7)

lemma grows_walk_element: "grows (walk_element w elem)"
  by (cases elem) (simp_all add: walk_element_def grows_walk_pages grows_raise)

lemma grows_open_page1: "grows (open_page1 w)"
proof (rule growsI)
  fix s
  show "\<exists>new. trace (snd (open_page1 w s)) = trace s @ new"
    by (simp add: open_page1_def perform_eq seq_def and_then_def print_def ret_def
          split: option.splits)
qed

lemma grows_process_person: "grows (process_person w idx elem)"
  by (simp add: process_person_def grows_seq grows_and_then grows_print grows_open_page1
        grows_ret grows_walk_element)

lemma grows_process_people: "grows (process_people w idx elems)"
proof (rule growsI)
  fix s
  show "\<exists>new. trace (snd (process_people w idx elems s)) = trace s @ new"
  proof (induction elems arbitrary: idx s)
    case Nil
    then show ?case by simp
  next
    case (Cons x xs)
    obtain r s1 where step: "process_person w idx x s = (r, s1)"
      by (cases "process_person w idx x s")
    from growsD [OF grows_process_person, of w idx x s] step
    obtain n1 where n1: "trace s1 = trace s @ n1" by auto
    show ?case
    proof (cases r)
      case (Exc e)
      with step n1 show ?thesis by simp
    next
      case (Ret returned)
      from Cons.IH [of "Suc idx" s1]
      obtain n2 where "trace (snd (process_people w (Suc idx) xs s1)) = trace s1 @ n2" by auto
      with step Ret n1 have "trace (snd (process_people w idx (x # xs) s))
          = trace s @ (if returned then n1 else n1 @ n2)"
        by simp
      then show ?thesis by blast
    qed
  qed
qed

lemma main_launches_first:
  "\<exists>rest. calls_of (main w (Loaded conf people)) s = Launch PLAYWRIGHT_HEADLESS # rest"
proof -
  let ?after = "seq (perform w NewPage)
               (case people of
                  NotIterable ty \<Rightarrow> raise (TypeError (quoted ty @ '' object is not iterable''))
                | Elements elems \<Rightarrow>
                    and_then (process_people w 1 elems) (\<lambda>returned.
                      if returned then ret ()
                      else block [perform w (Input ''All done. Press Enter to close the browser...''),
                                  print ''Closing browser...'',
                                  perform w BrowserClose]))"
  have g: "grows ?after"
    by (cases people)
       (simp_all add: grows_seq grows_perform grows_raise grows_and_then grows_process_people
          grows_ret grows_block grows_print)
  let ?s1 = "s\<lparr>trace := trace s @ [Launch PLAYWRIGHT_HEADLESS]\<rparr>"
  from growsD [OF g, of ?s1] obtain n where n: "trace (snd (?after ?s1)) = trace ?s1 @ n" by auto
  have "trace (snd (main w (Loaded conf people) s))
          = trace s @ (Launch PLAYWRIGHT_HEADLESS #
              (if raises w (trace s @ [Launch PLAYWRIGHT_HEADLESS]) = None then n else []))"
    using n
    by (cases "raises w (trace s @ [Launch PLAYWRIGHT_HEADLESS])")
       (simp_all add: main_def seq_def [of "perform w (Launch PLAYWRIGHT_HEADLESS)"]
          and_then_def perform_eq)
  then show ?thesis by (simp add: calls_of_def)
qed

subsection \<open>The data file\<close>

text \<open>
  C9, as amended. When the data file exists but \<open>json.loads\<close> rejects its contents,
  \<open>main\<close> ends with the uncaught \<open>JSONDecodeError\<close>, having made no driver call (no
  launch, no navigation) and printed nothing; a file that cannot be read ends it with
  the exception of \<open>read_text\<close> in the same way. Contents that \<open>json.loads\<close>
  accepts, valid JSON or not, get the browser launched: the launch is the first
  driver call. So \<open>main\<close> makes no driver call exactly for the absent, the unreadable
  and the rejected file, and of these the absent file is the only one it reports on
  the console and returns from normally.
\<close>

theorem C9_rejected_json_crashes_before_launch:
  "main w (Malformed msg) s = (Exc (JSONDecodeError msg), s)
   \<and> main w (Unreadable e) s = (Exc e, s)
   \<and> main w Missing s
       = (Ret (), s\<lparr>console := console s @ [''[ERROR] '' @ quoted DATA_FILE @ '' not found.'']\<rparr>)
   \<and> (\<exists>rest. calls_of (main w (Loaded conf people)) s = Launch PLAYWRIGHT_HEADLESS # rest)
   \<and> (calls_of (main w data) s = [])
       = (data = Missing \<or> (\<exists>e'. data = Unreadable e') \<or> (\<exists>msg'. data = Malformed msg'))
   \<and> (fst (main w data s) = Ret () \<and> calls_of (main w data) s = []) = (data = Missing)"
proof -
  have a: "main w (Malformed msg) s = (Exc (JSONDecodeError msg), s)"
    and b: "main w (Unreadable e) s = (Exc e, s)"
    and c: "main w Missing s
       = (Ret (), s\<lparr>console := console s @ [''[ERROR] '' @ quoted DATA_FILE @ '' not found.'']\<rparr>)"
    by (simp_all add: main_def raise_def print_def)
  have d: "\<exists>rest. calls_of (main w (Loaded conf people)) s = Launch PLAYWRIGHT_HEADLESS # rest"
    by (rule main_launches_first)
  have e: "(calls_of (main w data) s = [])
       = (data = Missing \<or> (\<exists>e'. data = Unreadable e') \<or> (\<exists>msg'. data = Malformed msg'))"
  proof (cases data)
    case (Loaded conf' people')
    with main_launches_first [of w conf' people' s] show ?thesis by auto
  qed (simp_all add: main_def raise_def print_def calls_of_def)
  have f: "(fst (main w data s) = Ret () \<and> calls_of (main w data) s = []) = (data = Missing)"
  proof (cases data)
    case (Loaded conf' people')
    with main_launches_first [of w conf' people' s] show ?thesis by auto
  qed (simp_all add: main_def raise_def print_def calls_of_def)
  from a b c d e f show ?thesis by blast
qed

theorem C9_rejected_json_crashes_before_launch_witness:
  "calls_of (main world_ok (Malformed ''Expecting value: line 1 column 1 (char 0)'')) s0 = []
   \<and> fst (main world_ok (Malformed ''Expecting value: line 1 column 1 (char 0)'') s0)
       = Exc (JSONDecodeError ''Expecting value: line 1 column 1 (char 0)'')
   \<and> calls_of (main world_ok file_nan_field) s0 \<noteq> []"
proof -
  note t = C9_rejected_json_crashes_before_launch [of world_ok
      "''Expecting value: line 1 column 1 (char 0)''" s0 _ Nonstandard_Literals
      "Elements [Dict [(''element_2'', JFloat ''nan'')]]" "Malformed ''Expecting value: line 1 column 1 (char 0)''"]
  have a: "calls_of (main world_ok (Malformed ''Expecting value: line 1 column 1 (char 0)'')) s0 = []"
    using t [THEN conjunct2, THEN conjunct2, THEN conjunct2, THEN conjunct2, THEN conjunct1]
    by simp
  have b: "fst (main world_ok (Malformed ''Expecting value: line 1 column 1 (char 0)'') s0)
       = Exc (JSONDecodeError ''Expecting value: line 1 column 1 (char 0)'')"
    by (simp only: t [THEN conjunct1] fst_conv)
  have c: "calls_of (main world_ok file_nan_field) s0 \<noteq> []"
    using t [THEN conjunct2, THEN conjunct2, THEN conjunct2, THEN conjunct1]
    by (auto simp add: file_nan_field_def)
  from a b c show ?thesis by (simp only: simp_thms)
qed

text \<open>
  C9 as stated fails: the file \<open>[NaN]\<close> exists and is not valid JSON, yet
  \<open>json.loads\<close> accepts it; \<open>main\<close> launches the browser, opens page 1 and only
  then ends with an uncaught exception, at the first line of the page-1 filler.
\<close>

theorem C9_nan_list_launches_browser_counterexample:
  "\<not> valid_json file_nan_list
   \<and> main world_ok file_nan_list s0
       = (Exc (AttributeError (quoted ''float'' @ '' object has no attribute '' @ quoted ''items'')),
          \<lparr>trace = [Launch False, NewPage, Goto SITE_URL 30000,
                     WaitForSelector ''#form_container'' 10000],
            console = [[CHR 0x0A] @ ''=== Processing person #1 ===''],
            draws = []\<rparr>)"
  by (simp add: file_nan_list_def main_def seq_def and_then_def perform_eq process_person_def
        open_page1_def walk_element_def raise_def print_def ret_def world_ok_def s0_def
        PLAYWRIGHT_HEADLESS_def str_nat.simps)

subsection \<open>The loop over the records\<close>

lemma process_people_append:
  "process_people w idx (xs @ ys) s =
     (case process_people w idx xs s of
        (Ret returned, s') \<Rightarrow>
          if returned then (Ret True, s') else process_people w (idx + length xs) ys s'
      | (Exc e, s') \<Rightarrow> (Exc e, s'))"
proof (induction xs arbitrary: idx s)
  case Nil
  then show ?case by simp
next
  case (Cons x xs)
  show ?case
    by (simp add: Cons.IH split: prod.splits res.splits)
qed

lemma process_person_no_container:
  assumes "raises w (trace s @ [Goto SITE_URL 30000]) = None"
    and "raises w (trace s @ [Goto SITE_URL 30000, WaitForSelector ''#form_container'' 10000]) = Some e"
    and "is_timeout e"
  shows "process_person w idx person s =
           ((case raises w (trace s @ [Goto SITE_URL 30000,
                     WaitForSelector ''#form_container'' 10000, BrowserClose]) of
               None \<Rightarrow> Ret True | Some e' \<Rightarrow> Exc e'),
            s\<lparr>trace := trace s @ [Goto SITE_URL 30000,
                 WaitForSelector ''#form_container'' 10000, BrowserClose],
              console := console s @ [[CHR 0x0A] @ ''=== Processing person #'' @ str_nat idx @ '' ==='',
                 ''[ERROR] '' @ quoted ''#form_container'' @ '' not found on page 1.'']\<rparr>)"
  using assms
  by (simp add: process_person_def seq_def and_then_def print_def open_page1_def perform_eq ret_def
      split: option.splits)

text \<open>
  C8. Take any record of the input, the records \<open>before\<close> it having been walked
  to the end. If page 1 loads but its container \<open>#form_container\<close> does not appear
  within 10000 ms, \<open>main\<close> prints the error naming the container, closes the browser
  and stops: the close is its last driver call, whatever records \<open>rest\<close> remain.
\<close>

theorem C8_missing_container_ends_run:
  assumes "raises w (trace si @ [Launch PLAYWRIGHT_HEADLESS]) = None"
    and "raises w (trace si @ [Launch PLAYWRIGHT_HEADLESS, NewPage]) = None"
    and "process_people w 1 before (si\<lparr>trace := trace si @ [Launch PLAYWRIGHT_HEADLESS, NewPage]\<rparr>)
           = (Ret False, s)"
    and "raises w (trace s @ [Goto SITE_URL 30000]) = None"
    and "raises w (trace s @ [Goto SITE_URL 30000, WaitForSelector ''#form_container'' 10000]) = Some e"
    and "is_timeout e"
  shows "main w (Loaded conf (Elements (before @ person # rest))) si =
           ((case raises w (trace s @ [Goto SITE_URL 30000,
                     WaitForSelector ''#form_container'' 10000, BrowserClose]) of
               None \<Rightarrow> Ret () | Some e' \<Rightarrow> Exc e'),
            s\<lparr>trace := trace s @ [Goto SITE_URL 30000,
                 WaitForSelector ''#form_container'' 10000, BrowserClose],
              console := console s @
                [[CHR 0x0A] @ ''=== Processing person #'' @ str_nat (Suc (length before)) @ '' ==='',
                 ''[ERROR] '' @ quoted ''#form_container'' @ '' not found on page 1.'']\<rparr>)"
proof -
  have pp: "process_people w (Suc (length before)) (person # rest) s =
           ((case raises w (trace s @ [Goto SITE_URL 30000,
                     WaitForSelector ''#form_container'' 10000, BrowserClose]) of
               None \<Rightarrow> Ret True | Some e' \<Rightarrow> Exc e'),
            s\<lparr>trace := trace s @ [Goto SITE_URL 30000,
                 WaitForSelector ''#form_container'' 10000, BrowserClose],
              console := console s @
                [[CHR 0x0A] @ ''=== Processing person #'' @ str_nat (Suc (length before)) @ '' ==='',
                 ''[ERROR] '' @ quoted ''#form_container'' @ '' not found on page 1.'']\<rparr>)"
    using process_person_no_container [OF assms(4) assms(5) assms(6), of "Suc (length before)" person]
    by (simp split: option.splits)
  have before: "process_people w (Suc 0) before
               (si\<lparr>trace := trace si @ [Launch PLAYWRIGHT_HEADLESS, NewPage]\<rparr>) = (Ret False, s)"
    using assms(3) by simp
  have all: "process_people w (Suc 0) (before @ person # rest)
               (si\<lparr>trace := trace si @ [Launch PLAYWRIGHT_HEADLESS, NewPage]\<rparr>)
             = process_people w (Suc (length before)) (person # rest) s"
    by (simp add: process_people_append before)
  note run = all [unfolded pp]
  show ?thesis
    using assms(1) assms(2)
    by (simp add: main_def seq_def and_then_def perform_eq run ret_def split: option.splits)
qed

theorem C8_missing_container_ends_run_witness:
  "main world_no_container (Loaded Valid_JSON (Elements [Dict person_ali, Dict person_ali])) s0 =
     (Ret (), \<lparr>trace = [Launch False, NewPage, Goto SITE_URL 30000,
                 WaitForSelector ''#form_container'' 10000, BrowserClose],
              console = [[CHR 0x0A] @ ''=== Processing person #1 ==='',
                 ''[ERROR] '' @ quoted ''#form_container'' @ '' not found on page 1.''],
              draws = []\<rparr>)"
  using C8_missing_container_ends_run [of world_no_container s0 "[]"
      "s0\<lparr>trace := trace s0 @ [Launch PLAYWRIGHT_HEADLESS, NewPage]\<rparr>"
      "PlaywrightTimeoutError ''Timeout 10000ms exceeded.''" Valid_JSON "Dict person_ali"
      "[Dict person_ali]"]
  by (simp add: world_no_container_def s0_def PLAYWRIGHT_HEADLESS_def str_nat.simps)

subsection \<open>What the groups hold\<close>

lemma map_of_setdefault_append:
  "map_of (setdefault_append g k p) n =
     (if n = k then Some ((case map_of g k of None \<Rightarrow> [] | Some ps \<Rightarrow> ps) @ [p]) else map_of g n)"
  by (induction g k p rule: setdefault_append.induct) auto

lemma distinct_setdefault_append:
  "distinct (map fst g) \<Longrightarrow> distinct (map fst (setdefault_append g k p))"
proof (induction g k p rule: setdefault_append.induct)
  case (1 k p)
  then show ?case by simp
next
  case (2 k' ps g k p)
  have "fst ` set (setdefault_append g k p) = insert k (fst ` set g)"
    by (rule keys_setdefault_append)
  with 2 show ?case by auto
qed

lemma distinct_label_groups:
  "distinct (map fst g) \<Longrightarrow> distinct (map fst (label_groups elems g))"
  by (induction elems arbitrary: g) (simp_all add: distinct_setdefault_append)

lemma map_of_label_groups:
  "map_of (label_groups elems g) n =
     (if options_of n elems = [] then map_of g n
      else Some ((case map_of g n of None \<Rightarrow> [] | Some ps \<Rightarrow> ps) @ options_of n elems))"
proof (induction elems arbitrary: g)
  case Nil
  then show ?case by (simp add: options_of_def)
next
  case (Cons e elems)
  show ?case
  proof (cases "answerable_label e")
    case False
    then have "label_groups (e # elems) g = label_groups elems g"
      by (simp add: answerable_label_def)
    moreover from False have "options_of n (e # elems) = options_of n elems"
      by (simp add: options_of_def)
    ultimately show ?thesis by (simp add: Cons.IH)
  next
    case True
    then obtain k where k: "name_attr e = Some k"
      by (cases "name_attr e") (auto simp add: answerable_label_def falsy_def)
    let ?p = "(the (value_attr e), the (id_attr e))"
    from True k have step: "label_groups (e # elems) g = label_groups elems (setdefault_append g k ?p)"
      by (simp add: answerable_label_def)
    show ?thesis
    proof (cases "n = k")
      case True
      with \<open>answerable_label e\<close> k have "options_of n (e # elems) = ?p # options_of n elems"
        by (simp add: options_of_def)
      with True Cons.IH [of "setdefault_append g k ?p"] show ?thesis
        unfolding step by (simp add: map_of_setdefault_append)
    next
      case False
      with k have "options_of n (e # elems) = options_of n elems"
        by (simp add: options_of_def)
      with False Cons.IH [of "setdefault_append g k ?p"] show ?thesis
        unfolding step by (simp add: map_of_setdefault_append)
    qed
  qed
qed

lemma label_groups_options:
  "(n, ops) \<in> set (label_groups elems []) \<longleftrightarrow> options_of n elems \<noteq> [] \<and> ops = options_of n elems"
proof -
  have d: "distinct (map fst (label_groups elems []))"
    by (rule distinct_label_groups) simp
  have "(n, ops) \<in> set (label_groups elems []) \<longleftrightarrow> map_of (label_groups elems []) n = Some ops"
    using d by simp
  then show ?thesis
    by (auto simp add: map_of_label_groups)
qed

lemma set_add_distinct: "distinct vs \<Longrightarrow> distinct (set_add vs v)"
  by (simp add: set_add_def)

lemma set_add_nonempty: "set_add vs v \<noteq> []"
  by (auto simp add: set_add_def)

lemma value_sets_setdefault_add:
  "\<forall>(n, V) \<in> set g. V \<noteq> [] \<and> distinct V
     \<Longrightarrow> \<forall>(n, V) \<in> set (setdefault_add g k v). V \<noteq> [] \<and> distinct V"
  by (induction g k v rule: setdefault_add.induct)
     (auto simp add: set_add_distinct set_add_nonempty)

lemma value_sets_matrix_groups:
  "\<forall>(n, V) \<in> set g. V \<noteq> [] \<and> distinct V
     \<Longrightarrow> \<forall>(n, V) \<in> set (matrix_groups elems g). V \<noteq> [] \<and> distinct V"
proof (induction elems arbitrary: g)
  case Nil
  then show ?case by simp
next
  case (Cons e elems)
  show ?case
  proof (cases "falsy (name_attr e) \<or> falsy (value_attr e)")
    case True
    then show ?thesis using Cons by simp
  next
    case False
    from Cons.prems
    have "\<forall>(n, V) \<in> set (setdefault_add g (the (name_attr e)) (the (value_attr e))). V \<noteq> [] \<and> distinct V"
      by (rule value_sets_setdefault_add)
    then have "\<forall>(n, V) \<in> set (matrix_groups elems
        (setdefault_add g (the (name_attr e)) (the (value_attr e)))). V \<noteq> [] \<and> distinct V"
      by (rule Cons.IH)
    with False show ?thesis by simp
  qed
qed









lemma label_selector_inj: "label_selector i = label_selector j \<Longrightarrow> i = j"
  by (simp add: label_selector_def)

subsection \<open>One group, and the loop over the groups\<close>

lemma calls_of_append:
  "trace (snd (f s)) = trace s @ new \<Longrightarrow> calls_of f s = new"
  by (simp add: calls_of_def)

lemma prints_of_append:
  "console (snd (f s)) = console s @ out \<Longrightarrow> prints_of f s = out"
  by (simp add: prints_of_def)

lemma query_selector_all_eq:
  "query_selector_all w sel s =
     (case raises w (trace s @ [QuerySelectorAll sel]) of
        None \<Rightarrow> (Ret (radios w (trace s @ [QuerySelectorAll sel])),
                 s\<lparr>trace := trace s @ [QuerySelectorAll sel]\<rparr>)
      | Some e \<Rightarrow> (Exc e, s\<lparr>trace := trace s @ [QuerySelectorAll sel]\<rparr>))"
  by (simp add: query_selector_all_def Let_def split: option.splits)

lemma check_group_eq:
  assumes "randbelow w (draws s @ [length (set_iter w value_set)]) < length (set_iter w value_set)"
  shows "check_group w (name, value_set) s =
     (let requests = draws s @ [length (set_iter w value_set)];
          chosen_value = set_iter w value_set ! randbelow w requests;
          sel = matrix_selector name chosen_value;
          s1 = s\<lparr>draws := requests, trace := trace s @ [QuerySelector sel]\<rparr>;
          failed = (\<lambda>e. ''[ERROR] Checking '' @ quoted sel @ '' failed: '' @ exn_str e)
      in case raises w (trace s @ [QuerySelector sel]) of
           Some e \<Rightarrow> (Ret (), s1\<lparr>console := console s @ [failed e]\<rparr>)
         | None \<Rightarrow>
             if found w (trace s @ [QuerySelector sel])
             then (case raises w (trace s @ [QuerySelector sel, Check sel]) of
                     Some e \<Rightarrow> (Ret (), s1\<lparr>trace := trace s @ [QuerySelector sel, Check sel],
                                            console := console s @ [failed e]\<rparr>)
                   | None \<Rightarrow> (Ret (), s1\<lparr>trace := trace s @ [QuerySelector sel, Check sel]\<rparr>))
             else (Ret (), s1\<lparr>console := console s @
                     [''[WARNING] For group '' @ quoted name @ '', value='' @ chosen_value
                        @ '' not found.'']\<rparr>))"
proof -
  from assms have "set_iter w value_set \<noteq> []" by auto
  with assms show ?thesis
    by (simp add: check_group_def and_then_def random_choice_def try_except_def query_selector_eq
          perform_eq print_def is_exception_def Let_def split: option.splits)
qed

lemma check_group_step:
  assumes "randbelow w (draws s @ [length (set_iter w value_set)]) < length (set_iter w value_set)"
  shows "fst (check_group w (name, value_set) s) = Ret ()"
    and "draws (snd (check_group w (name, value_set) s)) = draws s @ [length (set_iter w value_set)]"
    and "trace (snd (check_group w (name, value_set) s))
           = trace s @ spec_answers w Check (trace s)
               [matrix_selector name
                  (set_iter w value_set ! randbelow w (draws s @ [length (set_iter w value_set)]))]"
  by (simp_all add: check_group_eq [OF assms] Let_def split: option.splits)

lemma check_group_stops:
  assumes "\<not> randbelow w (draws s @ [length (set_iter w value_set)]) < length (set_iter w value_set)"
  shows "\<exists>e. fst (check_group w (name, value_set) s) = Exc e"
    and "trace (snd (check_group w (name, value_set) s)) = trace s"
  using assms
  by (simp_all add: check_group_def and_then_def random_choice_def Let_def)

lemma spec_answers_Cons:
  "spec_answers w act h (sel # sels)
     = spec_answers w act h [sel] @ spec_answers w act (h @ spec_answers w act h [sel]) sels"
  by (simp add: Let_def)

lemma for_each_check_group_trace:
  "trace (snd (for_each (check_group w) gs s))
     = trace s @ spec_answers w Check (trace s) (matrix_choices w (draws s) gs)"
proof (induction gs arbitrary: s)
  case Nil
  then show ?case by simp
next
  case (Cons g gs)
  obtain name V where g: "g = (name, V)" by (cases g)
  obtain r s1 where step: "check_group w (name, V) s = (r, s1)" by (cases "check_group w (name, V) s")
  let ?L = "set_iter w V"
  let ?sel = "matrix_selector name (?L ! randbelow w (draws s @ [length ?L]))"
  show ?case
  proof (cases "randbelow w (draws s @ [length ?L]) < length ?L")
    case False
    from check_group_stops [OF False, of name] step obtain e where "r = Exc e" "trace s1 = trace s"
      by auto
    with False show ?thesis by (simp add: g step Let_def)
  next
    case True
    from check_group_step [OF True, of name] step
    have r: "r = Ret ()" and d: "draws s1 = draws s @ [length ?L]"
      and t: "trace s1 = trace s @ spec_answers w Check (trace s) [?sel]"
      by simp_all
    have run: "for_each (check_group w) (g # gs) s = for_each (check_group w) gs s1"
      by (simp add: g step r)
    have ch: "matrix_choices w (draws s) (g # gs) = ?sel # matrix_choices w (draws s1) gs"
      using True by (simp add: g d Let_def)
    show ?thesis
      unfolding run ch Cons.IH [of s1]
      by (subst spec_answers_Cons) (simp add: t)
  qed
qed

lemma for_each_check_group_ret:
  assumes "\<forall>h n. 0 < n \<longrightarrow> randbelow w (h @ [n]) < n"
    and "\<forall>(n, V) \<in> set gs. set_iter w V \<noteq> []"
  shows "fst (for_each (check_group w) gs s) = Ret ()"
  using assms(2)
proof (induction gs arbitrary: s)
  case Nil
  then show ?case by simp
next
  case (Cons g gs)
  obtain name V where g: "g = (name, V)" by (cases g)
  from Cons.prems g have "set_iter w V \<noteq> []" by simp
  with assms(1) have ok: "randbelow w (draws s @ [length (set_iter w V)]) < length (set_iter w V)"
    by simp
  obtain r s1 where step: "check_group w (name, V) s = (r, s1)" by (cases "check_group w (name, V) s")
  with check_group_step(1) [OF ok, of name] have r: "r = Ret ()" by simp
  from Cons.prems have "\<forall>(n, V) \<in> set gs. set_iter w V \<noteq> []" by simp
  from Cons.IH [OF this, of s1] show ?case by (simp add: g step r)
qed




lemma filter_query_spec_answers:
  assumes "\<And>sel. \<not> is_query (act sel)"
  shows "filter is_query (spec_answers w act h sels) = map QuerySelector sels"
  using assms by (induction sels arbitrary: h) (auto simp add: Let_def)

lemma click_group_eq:
  assumes "randbelow w (draws s @ [length options]) < length options"
  shows "click_group w (name, options) s =
     (let requests = draws s @ [length options];
          chosen_id = snd (options ! randbelow w requests);
          sel = label_selector chosen_id;
          s1 = s\<lparr>draws := requests, trace := trace s @ [QuerySelector sel]\<rparr>
      in case raises w (trace s @ [QuerySelector sel]) of
           Some e \<Rightarrow> (Ret (), s1\<lparr>console := console s @ [label_failed chosen_id e]\<rparr>)
         | None \<Rightarrow>
             if found w (trace s @ [QuerySelector sel])
             then (case raises w (trace s @ [QuerySelector sel, Click sel 5000]) of
                     Some e \<Rightarrow> (Ret (), s1\<lparr>trace := trace s @ [QuerySelector sel, Click sel 5000],
                                            console := console s @ [label_failed chosen_id e]\<rparr>)
                   | None \<Rightarrow> (Ret (), s1\<lparr>trace := trace s @ [QuerySelector sel, Click sel 5000]\<rparr>))
             else (Ret (), s1\<lparr>console := console s @ [label_missing chosen_id]\<rparr>))"
proof -
  from assms have "options \<noteq> []" by auto
  with assms show ?thesis
    by (simp add: click_group_def and_then_def random_choice_def try_except_def query_selector_eq
          perform_eq print_def is_exception_def Let_def case_prod_beta label_failed_def
          label_missing_def split: option.splits)
qed

lemma click_group_step:
  assumes "randbelow w (draws s @ [length options]) < length options"
  shows "fst (click_group w (name, options) s) = Ret ()"
    and "draws (snd (click_group w (name, options) s)) = draws s @ [length options]"
    and "trace (snd (click_group w (name, options) s))
           = trace s @ spec_answers w (\<lambda>sel. Click sel 5000) (trace s)
               [label_selector (snd (options ! randbelow w (draws s @ [length options])))]"
    and "console (snd (click_group w (name, options) s))
           = console s @ spec_label_prints w (trace s)
               [snd (options ! randbelow w (draws s @ [length options]))]"
  by (simp_all add: click_group_eq [OF assms] Let_def split: option.splits)

lemma click_group_stops:
  assumes "\<not> randbelow w (draws s @ [length options]) < length options"
  shows "\<exists>e. fst (click_group w (name, options) s) = Exc e"
    and "trace (snd (click_group w (name, options) s)) = trace s"
    and "console (snd (click_group w (name, options) s)) = console s"
  using assms
  by (simp_all add: click_group_def and_then_def random_choice_def Let_def)

lemma spec_label_prints_Cons:
  "spec_label_prints w h (i # ids)
     = spec_label_prints w h [i]
       @ spec_label_prints w (h @ spec_answers w (\<lambda>sel. Click sel 5000) h [label_selector i]) ids"
  by (simp add: Let_def split: option.splits)

lemma for_each_click_group_trace:
  "trace (snd (for_each (click_group w) gs s))
     = trace s @ spec_answers w (\<lambda>sel. Click sel 5000) (trace s)
                   (map label_selector (label_choices w (draws s) gs))
   \<and> console (snd (for_each (click_group w) gs s))
     = console s @ spec_label_prints w (trace s) (label_choices w (draws s) gs)"
proof (induction gs arbitrary: s)
  case Nil
  then show ?case by simp
next
  case (Cons g gs)
  obtain name ops where g: "g = (name, ops)" by (cases g)
  obtain r s1 where step: "click_group w (name, ops) s = (r, s1)" by (cases "click_group w (name, ops) s")
  let ?i = "snd (ops ! randbelow w (draws s @ [length ops]))"
  show ?case
  proof (cases "randbelow w (draws s @ [length ops]) < length ops")
    case False
    from click_group_stops [OF False, of name] step
    obtain e where "r = Exc e" "trace s1 = trace s" "console s1 = console s"
      by auto
    with False show ?thesis by (simp add: g step Let_def)
  next
    case True
    from click_group_step [OF True, of name] step
    have r: "r = Ret ()" and d: "draws s1 = draws s @ [length ops]"
      and t: "trace s1 = trace s @ spec_answers w (\<lambda>sel. Click sel 5000) (trace s) [label_selector ?i]"
      and c: "console s1 = console s @ spec_label_prints w (trace s) [?i]"
      by simp_all
    have run: "for_each (click_group w) (g # gs) s = for_each (click_group w) gs s1"
      by (simp add: g step r)
    have ch: "label_choices w (draws s) (g # gs) = ?i # label_choices w (draws s1) gs"
      using True by (simp add: g d Let_def)
    from Cons.IH [of s1]
    have tr: "trace (snd (for_each (click_group w) gs s1))
        = trace s1 @ spec_answers w (\<lambda>sel. Click sel 5000) (trace s1)
                       (map label_selector (label_choices w (draws s1) gs))"
      and co: "console (snd (for_each (click_group w) gs s1))
        = console s1 @ spec_label_prints w (trace s1) (label_choices w (draws s1) gs)"
      by simp_all
    have 1: "trace (snd (for_each (click_group w) (g # gs) s))
        = trace s @ spec_answers w (\<lambda>sel. Click sel 5000) (trace s)
                      (map label_selector (label_choices w (draws s) (g # gs)))"
      unfolding run ch tr list.map
      by (subst spec_answers_Cons) (simp add: t)
    have 2: "console (snd (for_each (click_group w) (g # gs) s))
        = console s @ spec_label_prints w (trace s) (label_choices w (draws s) (g # gs))"
      unfolding run ch co
      by (subst spec_label_prints_Cons) (simp add: t c)
    from 1 2 show ?thesis by (rule conjI)
  qed
qed

lemma for_each_click_group_ret:
  assumes "\<forall>h n. 0 < n \<longrightarrow> randbelow w (h @ [n]) < n"
    and "\<forall>(n, ops) \<in> set gs. ops \<noteq> []"
  shows "fst (for_each (click_group w) gs s) = Ret ()"
  using assms(2)
proof (induction gs arbitrary: s)
  case Nil
  then show ?case by simp
next
  case (Cons g gs)
  obtain name ops where g: "g = (name, ops)" by (cases g)
  from Cons.prems g have "ops \<noteq> []" by simp
  with assms(1) have ok: "randbelow w (draws s @ [length ops]) < length ops" by simp
  obtain r s1 where step: "click_group w (name, ops) s = (r, s1)" by (cases "click_group w (name, ops) s")
  with click_group_step(1) [OF ok, of name] have r: "r = Ret ()" by simp
  from Cons.prems have "\<forall>(n, ops) \<in> set gs. ops \<noteq> []" by simp
  from Cons.IH [OF this, of s1] show ?case by (simp add: g step r)
qed

lemma label_choices_one_per_group:
  assumes "\<forall>h n. 0 < n \<longrightarrow> randbelow w (h @ [n]) < n"
    and "\<forall>(n, ops) \<in> set gs. ops \<noteq> []"
  shows "list_all2 (\<lambda>(n, ops) chosen_id. chosen_id \<in> snd ` set ops) gs (label_choices w h gs)"
  using assms(2)
proof (induction gs arbitrary: h)
  case Nil
  then show ?case by simp
next
  case (Cons g gs)
  obtain name ops where g: "g = (name, ops)" by (cases g)
  from Cons.prems g have "ops \<noteq> []" by simp
  with assms(1) have ok: "randbelow w (h @ [length ops]) < length ops" by simp
  then have mem: "ops ! randbelow w (h @ [length ops]) \<in> set ops" by (rule nth_mem)
  from Cons.prems have "\<forall>(n, ops) \<in> set gs. ops \<noteq> []" by simp
  from Cons.IH [OF this, of "h @ [length ops]"] ok mem show ?case
    by (auto simp add: g Let_def)
qed

subsection \<open>The radio-matrix filler\<close>

lemma fill_radio_matrix_page_discovered:
  assumes "raises w (trace s @ [WaitForSelector radio_selector timeout]) = None"
    and "raises w (trace s @ [WaitForSelector radio_selector timeout,
                               QuerySelectorAll radio_selector]) = None"
  shows "fill_radio_matrix_page w timeout s
           = for_each (check_group w)
               (matrix_groups (radios w (trace s @ [WaitForSelector radio_selector timeout,
                                                     QuerySelectorAll radio_selector])) [])
               (s\<lparr>trace := trace s @ [WaitForSelector radio_selector timeout,
                                        QuerySelectorAll radio_selector]\<rparr>)"
  using assms
  by (simp add: fill_radio_matrix_page_def perform_eq and_then_def query_selector_all_eq
        answer_matrix_def)







subsection \<open>The label-click filler\<close>

lemma fill_page_5_or_7_discovered:
  assumes "raises w (trace s @ [WaitForSelector radio_selector 5000]) = None"
    and "raises w (trace s @ [WaitForSelector radio_selector 5000,
                               QuerySelectorAll radio_selector]) = None"
  shows "fill_page_5_or_7 w s
           = for_each (click_group w)
               (label_groups (radios w (trace s @ [WaitForSelector radio_selector 5000,
                                                    QuerySelectorAll radio_selector])) [])
               (s\<lparr>trace := trace s @ [WaitForSelector radio_selector 5000,
                                        QuerySelectorAll radio_selector]\<rparr>)"
  using assms
  by (simp add: fill_page_5_or_7_def perform_eq and_then_def query_selector_all_eq
        answer_labels_def)

lemma hd_click_group:
  assumes "k < length options"
  shows "hd (calls_of (click_group (w\<lparr>randbelow := (\<lambda>h. k)\<rparr>) (n, options)) s)
           = QuerySelector (label_selector (snd (options ! k)))"
proof -
  let ?w = "w\<lparr>randbelow := (\<lambda>h. k)\<rparr>"
  from assms have ok: "randbelow ?w (draws s @ [length options]) < length options"
    by simp
  have "calls_of (click_group ?w (n, options)) s
          = spec_answers ?w (\<lambda>sel. Click sel 5000) (trace s) [label_selector (snd (options ! k))]"
    by (rule calls_of_append) (simp add: click_group_step(3) [OF ok])
  then show ?thesis by (simp add: Let_def)
qed

lemma label_levels:
  "is_warning (label_missing i)" "is_error (label_failed i e)" "\<not> is_warning (label_failed i e)"
  by (simp_all add: is_warning_def is_error_def label_missing_def label_failed_def)

text \<open>
  C6, as amended. Let the wait for radios and the discovery succeed and let the
  generator keep its promise of an index below the bound. The label-click filler
  groups the radios that have a name, a value and an id by name: the groups are
  exactly the names with such a radio, each with the list of its (value, id) pairs in
  page order. The filler returns normally. For every group in turn it picks one pair
  of the group with \<open>random.choice\<close>, looks up the label keyed on the chosen id, and
  clicks that label (waiting at most 5000 ms) exactly when the lookup returns it. For
  each chosen id it prints at most one line: a \<open>[WARNING]\<close> line when the label is
  missing, an \<open>[ERROR]\<close> line, which is no warning, when the lookup or the click
  raises. The pick is uniform over the group's list: each of its pairs is picked by
  its own one of the equally likely indices the generator may return.
\<close>

theorem C6_label_click_per_group:
  assumes below: "\<forall>h n. 0 < n \<longrightarrow> randbelow w (h @ [n]) < n"
    and wait: "raises w (trace s @ [WaitForSelector radio_selector 5000]) = None"
    and all: "raises w (trace s @ [WaitForSelector radio_selector 5000,
                                    QuerySelectorAll radio_selector]) = None"
  shows "(let opened = trace s @ [WaitForSelector radio_selector 5000,
                                   QuerySelectorAll radio_selector];
              elems = radios w opened;
              groups = label_groups elems [];
              ids = label_choices w (draws s) groups
          in (\<forall>n ops. ((n, ops) \<in> set groups)
                       = (options_of n elems \<noteq> [] \<and> ops = options_of n elems))
           \<and> distinct (map fst groups)
           \<and> list_all2 (\<lambda>(n, ops) chosen_id. chosen_id \<in> snd ` set ops) groups ids
           \<and> fst (fill_page_5_or_7 w s) = Ret ()
           \<and> calls_of (fill_page_5_or_7 w) s
               = [WaitForSelector radio_selector 5000, QuerySelectorAll radio_selector]
                 @ spec_answers w (\<lambda>sel. Click sel 5000) opened (map label_selector ids)
           \<and> prints_of (fill_page_5_or_7 w) s = spec_label_prints w opened ids
           \<and> (\<forall>(n, ops) \<in> set groups. \<forall>k < length ops. \<forall>s'.
                 hd (calls_of (click_group (w\<lparr>randbelow := (\<lambda>h. k)\<rparr>) (n, ops)) s')
                   = QuerySelector (label_selector (snd (ops ! k))))
           \<and> (\<forall>i e. is_warning (label_missing i) \<and> is_error (label_failed i e)
                      \<and> \<not> is_warning (label_failed i e)))"
proof -
  let ?opened = "trace s @ [WaitForSelector radio_selector 5000, QuerySelectorAll radio_selector]"
  let ?elems = "radios w ?opened"
  let ?groups = "label_groups ?elems []"
  let ?s2 = "s\<lparr>trace := ?opened\<rparr>"
  let ?ids = "label_choices w (draws s) ?groups"
  have c1: "\<forall>n ops. ((n, ops) \<in> set ?groups)
                       = (options_of n ?elems \<noteq> [] \<and> ops = options_of n ?elems)"
    by (simp add: label_groups_options)
  have c2: "distinct (map fst ?groups)"
    by (rule distinct_label_groups) simp
  have ne: "\<forall>(n, ops) \<in> set ?groups. ops \<noteq> []"
    by (auto simp add: label_groups_options)
  have c3: "list_all2 (\<lambda>(n, ops) chosen_id. chosen_id \<in> snd ` set ops) ?groups ?ids"
    by (rule label_choices_one_per_group [OF below ne])
  have run: "fill_page_5_or_7 w s = for_each (click_group w) ?groups ?s2"
    by (rule fill_page_5_or_7_discovered [OF wait all])
  have c4: "fst (fill_page_5_or_7 w s) = Ret ()"
    unfolding run by (rule for_each_click_group_ret [OF below ne])
  have "trace (snd (fill_page_5_or_7 w s))
          = trace s @ ([WaitForSelector radio_selector 5000, QuerySelectorAll radio_selector]
                       @ spec_answers w (\<lambda>sel. Click sel 5000) ?opened (map label_selector ?ids))"
    unfolding run using for_each_click_group_trace [of w ?groups ?s2] by simp
  then have c5: "calls_of (fill_page_5_or_7 w) s
               = [WaitForSelector radio_selector 5000, QuerySelectorAll radio_selector]
                 @ spec_answers w (\<lambda>sel. Click sel 5000) ?opened (map label_selector ?ids)"
    by (rule calls_of_append)
  have "console (snd (fill_page_5_or_7 w s)) = console s @ spec_label_prints w ?opened ?ids"
    unfolding run using for_each_click_group_trace [of w ?groups ?s2] by simp
  then have c6: "prints_of (fill_page_5_or_7 w) s = spec_label_prints w ?opened ?ids"
    by (rule prints_of_append)
  have c7: "\<forall>(n, ops) \<in> set ?groups. \<forall>k < length ops. \<forall>s'.
                 hd (calls_of (click_group (w\<lparr>randbelow := (\<lambda>h. k)\<rparr>) (n, ops)) s')
                   = QuerySelector (label_selector (snd (ops ! k)))"
    by (auto simp add: hd_click_group)
  have c8: "\<forall>i e. is_warning (label_missing i) \<and> is_error (label_failed i e)
                      \<and> \<not> is_warning (label_failed i e)"
    by (simp add: label_levels)
  show ?thesis
    unfolding Let_def
    by (intro conjI) (fact c1 c2 c3 c4 c5 c6 c7 c8)+
qed

theorem C6_label_click_per_group_witness:
  "label_groups page_q12 []
     = [(''q1'', [(''1'', ''a''), (''2'', ''b''), (''3'', ''c'')]), (''q2'', [(''1'', ''d''), (''2'', ''e'')])]
   \<and> fst (fill_page_5_or_7 world_q12_labels s0) = Ret ()
   \<and> calls_of (fill_page_5_or_7 world_q12_labels) s0
       = [WaitForSelector radio_selector 5000, QuerySelectorAll radio_selector,
          QuerySelector (label_selector ''c''),
          QuerySelector (label_selector ''e''), Click (label_selector ''e'') 5000]
   \<and> prints_of (fill_page_5_or_7 world_q12_labels) s0
       = [label_missing ''c'', label_failed ''e'' (PlaywrightError ''intercepted'')]"
proof -
  have g: "label_groups page_q12 []
     = [(''q1'', [(''1'', ''a''), (''2'', ''b''), (''3'', ''c'')]), (''q2'', [(''1'', ''d''), (''2'', ''e'')])]"
    by (simp add: page_q12_def falsy_def)
  have below: "\<forall>h n. 0 < n \<longrightarrow> randbelow world_q12_labels (h @ [n]) < n"
    by (simp add: world_q12_labels_def)
  have wait: "raises world_q12_labels (trace s0 @ [WaitForSelector radio_selector 5000]) = None"
    and all: "raises world_q12_labels (trace s0 @ [WaitForSelector radio_selector 5000,
                                    QuerySelectorAll radio_selector]) = None"
    by (simp_all add: world_q12_labels_def)
  note t = C6_label_click_per_group [OF below wait all, unfolded Let_def]
  note rest = t [THEN conjunct2, THEN conjunct2, THEN conjunct2]
  have r: "fst (fill_page_5_or_7 world_q12_labels s0) = Ret ()"
    by (rule rest [THEN conjunct1])
  have ids: "label_choices world_q12_labels []
               [(''q1'', [(''1'', ''a''), (''2'', ''b''), (''3'', ''c'')]), (''q2'', [(''1'', ''d''), (''2'', ''e'')])]
                = [''c'', ''e'']"
    by (simp add: world_q12_labels_def Let_def)
  have rad: "radios world_q12_labels (trace s0 @ [WaitForSelector radio_selector 5000,
                                           QuerySelectorAll radio_selector]) = page_q12"
    by (simp add: world_q12_labels_def)
  have dr: "draws s0 = []" by (simp add: s0_def)
  have c: "calls_of (fill_page_5_or_7 world_q12_labels) s0
       = [WaitForSelector radio_selector 5000, QuerySelectorAll radio_selector,
          QuerySelector (label_selector ''c''),
          QuerySelector (label_selector ''e''), Click (label_selector ''e'') 5000]"
    by (simp only: rest [THEN conjunct2, THEN conjunct1] rad g dr ids)
       (simp add: world_q12_labels_def Let_def label_selector_def)
  have p: "prints_of (fill_page_5_or_7 world_q12_labels) s0
       = [label_missing ''c'', label_failed ''e'' (PlaywrightError ''intercepted'')]"
    by (simp only: rest [THEN conjunct2, THEN conjunct2, THEN conjunct1] rad g dr ids)
       (simp add: world_q12_labels_def Let_def label_selector_def)
  from g r c p show ?thesis by (simp only: simp_thms)
qed

text \<open>
  C6 as stated fails: when the click on the chosen label raises, the filler returns
  normally but the one line it prints is tagged \<open>[ERROR]\<close>; no warning is printed.
\<close>

theorem C6_click_exception_is_error_counterexample:
  "fst (fill_page_5_or_7 world_label_click_fails s0) = Ret ()
   \<and> prints_of (fill_page_5_or_7 world_label_click_fails) s0
       = [''[ERROR] Clicking label '' @ quoted (label_selector ''a'') @ '' failed: intercepted'']
   \<and> filter is_warning (prints_of (fill_page_5_or_7 world_label_click_fails) s0) = []"
proof -
  have run: "fill_page_5_or_7 world_label_click_fails s0
      = (Ret (), \<lparr>trace = [WaitForSelector radio_selector 5000, QuerySelectorAll radio_selector,
                     QuerySelector (label_selector ''a''), Click (label_selector ''a'') 5000],
                  console = [''[ERROR] Clicking label '' @ quoted (label_selector ''a'')
                             @ '' failed: intercepted''],
                  draws = [1]\<rparr>)"
    by (simp add: fill_page_5_or_7_def perform_eq world_label_click_fails_def s0_def and_then_def
          query_selector_all_def answer_labels_def falsy_def click_group_eq Let_def
          label_failed_def)
  show ?thesis
    by (simp only: run prints_of_def) (simp add: s0_def is_warning_def)
qed

subsection \<open>Two runs with one seed\<close>

lemma matrix_choices_cong:
  "randbelow w1 = randbelow w2 \<Longrightarrow> set_iter w1 = set_iter w2
     \<Longrightarrow> matrix_choices w1 h gs = matrix_choices w2 h gs"
  by (induction gs arbitrary: h) (auto simp add: Let_def)

lemma label_choices_cong:
  "randbelow w1 = randbelow w2 \<Longrightarrow> label_choices w1 h gs = label_choices w2 h gs"
  by (induction gs arbitrary: h) (auto simp add: Let_def)

lemma matrix_page_lookups:
  assumes "raises w (trace s @ [WaitForSelector radio_selector timeout]) = None"
    and "raises w (trace s @ [WaitForSelector radio_selector timeout, QuerySelectorAll radio_selector]) = None"
  shows "filter is_query (calls_of (fill_radio_matrix_page w timeout) s)
           = map QuerySelector (matrix_choices w (draws s)
               (matrix_groups (radios w (trace s @ [WaitForSelector radio_selector timeout,
                                                     QuerySelectorAll radio_selector])) []))"
proof -
  let ?opened = "trace s @ [WaitForSelector radio_selector timeout, QuerySelectorAll radio_selector]"
  let ?gs = "matrix_groups (radios w ?opened) []"
  let ?s2 = "s\<lparr>trace := ?opened\<rparr>"
  have "trace (snd (fill_radio_matrix_page w timeout s))
          = trace s @ ([WaitForSelector radio_selector timeout, QuerySelectorAll radio_selector]
                       @ spec_answers w Check ?opened (matrix_choices w (draws s) ?gs))"
    unfolding fill_radio_matrix_page_discovered [OF assms]
    using for_each_check_group_trace [of w ?gs ?s2] by simp
  then have "calls_of (fill_radio_matrix_page w timeout) s
          = [WaitForSelector radio_selector timeout, QuerySelectorAll radio_selector]
            @ spec_answers w Check ?opened (matrix_choices w (draws s) ?gs)"
    by (rule calls_of_append)
  then show ?thesis by (simp add: filter_query_spec_answers)
qed

lemma label_page_lookups:
  assumes "raises w (trace s @ [WaitForSelector radio_selector 5000]) = None"
    and "raises w (trace s @ [WaitForSelector radio_selector 5000, QuerySelectorAll radio_selector]) = None"
  shows "filter is_query (calls_of (fill_page_5_or_7 w) s)
           = map QuerySelector (map label_selector (label_choices w (draws s)
               (label_groups (radios w (trace s @ [WaitForSelector radio_selector 5000,
                                                    QuerySelectorAll radio_selector])) [])))"
proof -
  let ?opened = "trace s @ [WaitForSelector radio_selector 5000, QuerySelectorAll radio_selector]"
  let ?gs = "label_groups (radios w ?opened) []"
  let ?s2 = "s\<lparr>trace := ?opened\<rparr>"
  have "trace (snd (fill_page_5_or_7 w s))
          = trace s @ ([WaitForSelector radio_selector 5000, QuerySelectorAll radio_selector]
                       @ spec_answers w (\<lambda>sel. Click sel 5000) ?opened
                           (map label_selector (label_choices w (draws s) ?gs)))"
    unfolding fill_page_5_or_7_discovered [OF assms]
    using for_each_click_group_trace [of w ?gs ?s2] by simp
  then have "calls_of (fill_page_5_or_7 w) s
          = [WaitForSelector radio_selector 5000, QuerySelectorAll radio_selector]
            @ spec_answers w (\<lambda>sel. Click sel 5000) ?opened
                (map label_selector (label_choices w (draws s) ?gs))"
    by (rule calls_of_append)
  then show ?thesis by (simp add: filter_query_spec_answers)
qed

text \<open>
  C3, as amended. Take two runs of a filler, in any two worlds and from any two
  states, that share the seed (the same generator, after the same requests) and
  discover the same radios after the wait. The label-click filler then looks up the
  same labels, one per group and in the same order, whatever else the two pages
  answer. The radio-matrix filler looks up the same controls provided the two runs
  also iterate their sets in the same order (and that order enumerates each set).
\<close>

theorem C3_same_seed_same_choices:
  assumes seed: "randbelow w1 = randbelow w2" and pos: "draws s1 = draws s2"
    and wait1: "raises w1 (trace s1 @ [WaitForSelector radio_selector 5000]) = None"
    and all1: "raises w1 (trace s1 @ [WaitForSelector radio_selector 5000,
                                       QuerySelectorAll radio_selector]) = None"
    and wait2: "raises w2 (trace s2 @ [WaitForSelector radio_selector 5000]) = None"
    and all2: "raises w2 (trace s2 @ [WaitForSelector radio_selector 5000,
                                       QuerySelectorAll radio_selector]) = None"
    and page: "radios w1 (trace s1 @ [WaitForSelector radio_selector 5000, QuerySelectorAll radio_selector])
             = radios w2 (trace s2 @ [WaitForSelector radio_selector 5000, QuerySelectorAll radio_selector])"
  shows "(set_iter w1 = set_iter w2
          \<and> (\<forall>vs. distinct vs \<longrightarrow> set (set_iter w1 vs) = set vs \<and> distinct (set_iter w1 vs))
          \<longrightarrow> filter is_query (calls_of (fill_radio_matrix_page w1 5000) s1)
              = filter is_query (calls_of (fill_radio_matrix_page w2 5000) s2))
       \<and> filter is_query (calls_of (fill_page_5_or_7 w1) s1)
           = filter is_query (calls_of (fill_page_5_or_7 w2) s2)"
proof -
  have labels: "filter is_query (calls_of (fill_page_5_or_7 w1) s1)
           = filter is_query (calls_of (fill_page_5_or_7 w2) s2)"
    by (simp only: label_page_lookups [OF wait1 all1] label_page_lookups [OF wait2 all2]
          page pos label_choices_cong [OF seed])
  have matrix: "filter is_query (calls_of (fill_radio_matrix_page w1 5000) s1)
              = filter is_query (calls_of (fill_radio_matrix_page w2 5000) s2)"
    if order: "set_iter w1 = set_iter w2"
      and perm: "\<forall>vs. distinct vs \<longrightarrow> set (set_iter w1 vs) = set vs \<and> distinct (set_iter w1 vs)"
  proof -
    show ?thesis
      by (simp only: matrix_page_lookups [OF wait1 all1] matrix_page_lookups [OF wait2 all2]
            page pos matrix_choices_cong [OF seed order])
  qed
  from labels matrix show ?thesis by blast
qed

theorem C3_same_seed_same_choices_witness:
  "filter is_query (calls_of (fill_radio_matrix_page world_q1 5000) s0)
     = filter is_query (calls_of (fill_radio_matrix_page world_q1_unmatched 5000) s0)
   \<and> filter is_query (calls_of (fill_page_5_or_7 world_q1) s0)
     = filter is_query (calls_of (fill_page_5_or_7 world_q1_unmatched) s0)"
proof -
  have seed: "randbelow world_q1 = randbelow world_q1_unmatched"
    by (simp add: world_q1_unmatched_def)
  have wait1: "raises world_q1 (trace s0 @ [WaitForSelector radio_selector 5000]) = None"
    and all1: "raises world_q1 (trace s0 @ [WaitForSelector radio_selector 5000,
                                       QuerySelectorAll radio_selector]) = None"
    by (simp_all add: world_q1_def)
  have wait2: "raises world_q1_unmatched (trace s0 @ [WaitForSelector radio_selector 5000]) = None"
    and all2: "raises world_q1_unmatched (trace s0 @ [WaitForSelector radio_selector 5000,
                                       QuerySelectorAll radio_selector]) = None"
    by (simp_all add: world_q1_unmatched_def world_q1_def)
  have page: "radios world_q1 (trace s0 @ [WaitForSelector radio_selector 5000, QuerySelectorAll radio_selector])
             = radios world_q1_unmatched (trace s0 @ [WaitForSelector radio_selector 5000, QuerySelectorAll radio_selector])"
    by (simp add: world_q1_unmatched_def)
  have order: "set_iter world_q1 = set_iter world_q1_unmatched
          \<and> (\<forall>vs. distinct vs \<longrightarrow> set (set_iter world_q1 vs) = set vs \<and> distinct (set_iter world_q1 vs))"
    by (simp add: world_q1_unmatched_def world_q1_def)
  note t = C3_same_seed_same_choices [OF seed refl wait1 all1 wait2 all2 page]
  from t [THEN conjunct1, THEN mp, OF order] t [THEN conjunct2]
  show ?thesis by (rule conjI)
qed

text \<open>
  C3 as stated fails for the radio-matrix filler: two worlds with the same seed and
  the same page, differing only in the order in which a set of strings is iterated,
  check different values of the group \<open>q1\<close>.
\<close>

theorem C3_set_order_changes_choice_counterexample:
  "randbelow world_q1_rev = randbelow world_q1
   \<and> raises world_q1_rev = raises world_q1
   \<and> found world_q1_rev = found world_q1
   \<and> radios world_q1_rev = radios world_q1
   \<and> filter is_check (calls_of (fill_radio_matrix_page world_q1 5000) s0)
       = [Check (matrix_selector ''q1'' ''1'')]
   \<and> filter is_check (calls_of (fill_radio_matrix_page world_q1_rev 5000) s0)
       = [Check (matrix_selector ''q1'' ''3'')]
   \<and> matrix_selector ''q1'' ''1'' \<noteq> matrix_selector ''q1'' ''3''"
proof -
  have run1: "fill_radio_matrix_page world_q1 5000 s0
      = (Ret (), \<lparr>trace = [WaitForSelector radio_selector 5000, QuerySelectorAll radio_selector,
                     QuerySelector (matrix_selector ''q1'' ''1''), Check (matrix_selector ''q1'' ''1'')],
                  console = [], draws = [3]\<rparr>)"
    by (simp add: fill_radio_matrix_page_def perform_eq world_q1_def
          page_q1_def s0_def and_then_def query_selector_all_def answer_matrix_def falsy_def
          set_add_def check_group_eq Let_def)
  have run2: "fill_radio_matrix_page world_q1_rev 5000 s0
      = (Ret (), \<lparr>trace = [WaitForSelector radio_selector 5000, QuerySelectorAll radio_selector,
                     QuerySelector (matrix_selector ''q1'' ''3''), Check (matrix_selector ''q1'' ''3'')],
                  console = [], draws = [3]\<rparr>)"
    by (simp add: fill_radio_matrix_page_def perform_eq world_q1_rev_def world_q1_def
          page_q1_def s0_def and_then_def query_selector_all_def answer_matrix_def falsy_def
          set_add_def check_group_eq Let_def)
  have same: "randbelow world_q1_rev = randbelow world_q1 \<and> raises world_q1_rev = raises world_q1
      \<and> found world_q1_rev = found world_q1 \<and> radios world_q1_rev = radios world_q1"
    by (simp add: world_q1_rev_def)
  have c1: "filter is_check (calls_of (fill_radio_matrix_page world_q1 5000) s0)
       = [Check (matrix_selector ''q1'' ''1'')]"
    by (simp only: run1 calls_of_def) (simp add: s0_def)
  have c2: "filter is_check (calls_of (fill_radio_matrix_page world_q1_rev 5000) s0)
       = [Check (matrix_selector ''q1'' ''3'')]"
    by (simp only: run2 calls_of_def) (simp add: s0_def)
  have ne: "matrix_selector ''q1'' ''1'' \<noteq> matrix_selector ''q1'' ''3''"
    by (simp add: matrix_selector_def)
  from same c1 c2 ne show ?thesis by (simp only: simp_thms)
qed

subsection \<open>Exceptions of the actions\<close>

lemma fill_field_ret: "fst (fill_field w item s) = Ret ()"
  by (cases item)
     (simp add: fill_field_def try_except_def and_then_def query_selector_eq perform_eq
        print_def is_exception_def split: option.splits)

lemma fill_field_logged:
  assumes "raises w (trace (snd (fill_field w (f, v) s))) = Some e"
  shows "prints_of (fill_field w (f, v)) s
           = [''[ERROR] Filling '' @ quoted f @ '' with '' @ quoted (str v) @ '' failed: '' @ exn_str e]"
  using assms
  by (auto simp add: prints_of_def fill_field_def try_except_def and_then_def query_selector_eq
        perform_eq print_def is_exception_def split: option.splits if_splits)

lemma check_group_logged:
  assumes "randbelow w (draws s @ [length (set_iter w V)]) < length (set_iter w V)"
    and "raises w (trace (snd (check_group w (n, V) s))) = Some e"
  shows "prints_of (check_group w (n, V)) s
           = [''[ERROR] Checking ''
              @ quoted (matrix_selector n (set_iter w V ! randbelow w (draws s @ [length (set_iter w V)])))
              @ '' failed: '' @ exn_str e]"
  using assms(2)
  by (auto simp add: prints_of_def check_group_eq [OF assms(1)] Let_def split: option.splits if_splits)

lemma click_group_logged:
  assumes "randbelow w (draws s @ [length options]) < length options"
    and "raises w (trace (snd (click_group w (n, options) s))) = Some e"
  shows "prints_of (click_group w (n, options)) s
           = [label_failed (snd (options ! randbelow w (draws s @ [length options]))) e]"
  using assms(2)
  by (auto simp add: prints_of_def click_group_eq [OF assms(1)] Let_def split: option.splits if_splits)

lemma click_continue_timeout:
  assumes "raises w (trace s @ [Click submit_selector 5000]) = Some e" and "is_timeout e"
  shows "click_continue w s
           = (Ret (), s\<lparr>trace := trace s @ [Click submit_selector 5000],
                         console := console s @
                           [''[ERROR] Could not find/click 'Continue' (or '' @ quoted submit_caption
                            @ '') on this page.'']\<rparr>)"
  using assms by (simp add: click_continue_def try_except_def perform_eq print_def)

lemma for_each_ret:
  assumes "\<And>x s. fst (f x s) = Ret ()"
  shows "fst (for_each f xs s) = Ret ()"
proof (induction xs arbitrary: s)
  case Nil
  then show ?case by simp
next
  case (Cons x xs)
  obtain r s1 where step: "f x s = (r, s1)" by (cases "f x s")
  with assms [of x s] have "r = Ret ()" by simp
  with step Cons.IH [of s1] show ?case by simp
qed

lemma block_ret:
  assumes "\<And>c s. c \<in> set cs \<Longrightarrow> fst (c s) = Ret ()"
  shows "fst (block cs s) = Ret ()"
  using assms
proof (induction cs arbitrary: s)
  case Nil
  then show ?case by (simp add: ret_def)
next
  case (Cons c cs)
  obtain r s1 where step: "c s = (r, s1)" by (cases "c s")
  with Cons.prems [of c s] have r: "r = Ret ()" by simp
  have "fst (block cs s1) = Ret ()"
    by (rule Cons.IH) (simp add: Cons.prems)
  with step r show ?case by (simp add: seq_def and_then_def)
qed

lemma pause_ret: "fst (pause w s) = Ret ()"
  by (simp add: pause_def try_except_def perform_eq is_exception_def ret_def split: option.splits)

lemma click_continue_ret:
  assumes "\<forall>h c e. raises w (h @ [c]) = Some e \<longrightarrow> recoverable c e"
  shows "fst (click_continue w s) = Ret ()"
proof (cases "raises w (trace s @ [Click submit_selector 5000])")
  case None
  then show ?thesis
    by (simp add: click_continue_def try_except_def perform_eq)
next
  case (Some e)
  with assms have "recoverable (Click submit_selector 5000) e" by blast
  then have "is_timeout e" by simp
  with Some show ?thesis by (simp add: click_continue_timeout)
qed

lemma fill_first_page_ret:
  assumes "\<forall>h c e. raises w (h @ [c]) = Some e \<longrightarrow> recoverable c e"
  shows "fst (fill_first_page w person s) = Ret ()"
proof -
  obtain s1 where s1: "for_each (fill_field w) person s = (Ret (), s1)"
    using for_each_ret [of "fill_field w" person s, OF fill_field_ret]
    by (cases "for_each (fill_field w) person s") auto
  show ?thesis
  proof (cases "raises w (trace s1 @ [Click submit_selector 5000])")
    case None
    then show ?thesis
      by (simp add: fill_first_page_def seq_def and_then_def s1 try_except_def perform_eq)
  next
    case (Some e)
    with assms have "recoverable (Click submit_selector 5000) e" by blast
    then have "is_timeout e" by simp
    with Some show ?thesis
      by (simp add: fill_first_page_def seq_def and_then_def s1 try_except_def perform_eq print_def)
  qed
qed

lemma fill_first_page_timeout:
  assumes "raises w (trace (snd (for_each (fill_field w) person s)) @ [Click submit_selector 5000])
             = Some e"
    and "is_timeout e"
  shows "fill_first_page w person s
           = (Ret (), (snd (for_each (fill_field w) person s))
                \<lparr>trace := trace (snd (for_each (fill_field w) person s))
                           @ [Click submit_selector 5000],
                  console := console (snd (for_each (fill_field w) person s))
                             @ [''[ERROR] Could not find/click 'Continue' on page 1.'']\<rparr>)"
proof -
  obtain s1 where s1: "for_each (fill_field w) person s = (Ret (), s1)"
    using for_each_ret [of "fill_field w" person s, OF fill_field_ret]
    by (cases "for_each (fill_field w) person s") auto
  with assms show ?thesis
    by (simp add: fill_first_page_def seq_def and_then_def try_except_def perform_eq print_def)
qed

lemma fill_radio_matrix_page_ret:
  assumes rec: "\<forall>h c e. raises w (h @ [c]) = Some e \<longrightarrow> recoverable c e"
    and iter: "\<forall>vs. vs \<noteq> [] \<longrightarrow> set_iter w vs \<noteq> []"
    and below: "\<forall>h n. 0 < n \<longrightarrow> randbelow w (h @ [n]) < n"
  shows "fst (fill_radio_matrix_page w timeout s) = Ret ()"
proof (cases "raises w (trace s @ [WaitForSelector radio_selector timeout])")
  case (Some e)
  with rec have "recoverable (WaitForSelector radio_selector timeout) e" by blast
  then have "is_timeout e" by simp
  with Some show ?thesis by (simp add: fill_radio_matrix_page_def perform_eq)
next
  case None
  have all: "raises w (trace s @ [WaitForSelector radio_selector timeout, QuerySelectorAll radio_selector]) = None"
  proof (cases "raises w ((trace s @ [WaitForSelector radio_selector timeout]) @ [QuerySelectorAll radio_selector])")
    case (Some e)
    with rec have "recoverable (QuerySelectorAll radio_selector) e" by blast
    then show ?thesis by simp
  qed simp
  let ?gs = "matrix_groups (radios w (trace s @ [WaitForSelector radio_selector timeout,
                                                  QuerySelectorAll radio_selector])) []"
  have inv: "\<forall>(n, V) \<in> set ?gs. V \<noteq> [] \<and> distinct V"
    by (rule value_sets_matrix_groups) simp
  with iter have ne: "\<forall>(n, V) \<in> set ?gs. set_iter w V \<noteq> []" by auto
  show ?thesis
    unfolding fill_radio_matrix_page_discovered [OF None all]
    by (rule for_each_check_group_ret [OF below ne])
qed

lemma fill_page_5_or_7_ret:
  assumes rec: "\<forall>h c e. raises w (h @ [c]) = Some e \<longrightarrow> recoverable c e"
    and below: "\<forall>h n. 0 < n \<longrightarrow> randbelow w (h @ [n]) < n"
  shows "fst (fill_page_5_or_7 w s) = Ret ()"
proof (cases "raises w (trace s @ [WaitForSelector radio_selector 5000])")
  case (Some e)
  with rec have "recoverable (WaitForSelector radio_selector 5000) e" by blast
  then have "is_timeout e" by simp
  with Some show ?thesis by (simp add: fill_page_5_or_7_def perform_eq)
next
  case None
  have all: "raises w (trace s @ [WaitForSelector radio_selector 5000, QuerySelectorAll radio_selector]) = None"
  proof (cases "raises w ((trace s @ [WaitForSelector radio_selector 5000]) @ [QuerySelectorAll radio_selector])")
    case (Some e)
    with rec have "recoverable (QuerySelectorAll radio_selector) e" by blast
    then show ?thesis by simp
  qed simp
  let ?gs = "label_groups (radios w (trace s @ [WaitForSelector radio_selector 5000,
                                                 QuerySelectorAll radio_selector])) []"
  have ne: "\<forall>(n, ops) \<in> set ?gs. ops \<noteq> []"
    by (auto simp add: label_groups_options)
  show ?thesis
    unfolding fill_page_5_or_7_discovered [OF None all]
    by (rule for_each_click_group_ret [OF below ne])
qed

lemma walk_pages_ret:
  assumes rec: "\<forall>h c e. raises w (h @ [c]) = Some e \<longrightarrow> recoverable c e"
    and iter: "\<forall>vs. vs \<noteq> [] \<longrightarrow> set_iter w vs \<noteq> []"
    and below: "\<forall>h n. 0 < n \<longrightarrow> randbelow w (h @ [n]) < n"
  shows "fst (walk_pages w person s) = Ret ()"
  unfolding walk_pages_def
  by (rule block_ret)
     (auto simp add: pause_ret click_continue_ret [OF rec] fill_first_page_ret [OF rec]
        fill_radio_matrix_page_ret [OF rec iter below] fill_page_5_or_7_ret [OF rec below])

text \<open>
  C4, as amended. In a world where every exception is one the walk handles (see
  \<open>recoverable\<close>: any exception of a lookup, fill, select, check or label click, and
  a timeout of the Continue click), walking the eight pages of a record ends
  normally. Step by step, in any world: filling a field, answering a matrix group and
  clicking a label never fail, and when the lookup or the action raised, the step
  prints one \<open>[ERROR]\<close> line carrying the exception's message; the Continue click
  that times out, on page 1 as on the later pages, prints its \<open>[ERROR]\<close> line and
  returns normally.
\<close>

theorem C4_caught_exceptions_do_not_abort:
  assumes rec: "\<forall>h c e. raises w (h @ [c]) = Some e \<longrightarrow> recoverable c e"
    and iter: "\<forall>vs. vs \<noteq> [] \<longrightarrow> set_iter w vs \<noteq> []"
    and below: "\<forall>h n. 0 < n \<longrightarrow> randbelow w (h @ [n]) < n"
  shows "fst (walk_pages w person s) = Ret ()
       \<and> fst (fill_field w' (f, v) s') = Ret ()
       \<and> (raises w' (trace (snd (fill_field w' (f, v) s'))) = Some e
            \<longrightarrow> prints_of (fill_field w' (f, v)) s'
                = [''[ERROR] Filling '' @ quoted f @ '' with '' @ quoted (str v) @ '' failed: ''
                   @ exn_str e])
       \<and> (randbelow w' (draws s' @ [length (set_iter w' V)]) < length (set_iter w' V)
            \<longrightarrow> fst (check_group w' (n, V) s') = Ret ())
       \<and> (randbelow w' (draws s' @ [length (set_iter w' V)]) < length (set_iter w' V)
            \<and> raises w' (trace (snd (check_group w' (n, V) s'))) = Some e
            \<longrightarrow> prints_of (check_group w' (n, V)) s'
                = [''[ERROR] Checking ''
                   @ quoted (matrix_selector n
                       (set_iter w' V ! randbelow w' (draws s' @ [length (set_iter w' V)])))
                   @ '' failed: '' @ exn_str e])
       \<and> (randbelow w' (draws s' @ [length options]) < length options
            \<longrightarrow> fst (click_group w' (n, options) s') = Ret ())
       \<and> (randbelow w' (draws s' @ [length options]) < length options
            \<and> raises w' (trace (snd (click_group w' (n, options) s'))) = Some e
            \<longrightarrow> prints_of (click_group w' (n, options)) s'
                = [''[ERROR] Clicking label ''
                   @ quoted (label_selector (snd (options ! randbelow w' (draws s' @ [length options]))))
                   @ '' failed: '' @ exn_str e])
       \<and> (raises w' (trace s' @ [Click submit_selector 5000]) = Some e \<and> is_timeout e
            \<longrightarrow> click_continue w' s'
                = (Ret (), s'\<lparr>trace := trace s' @ [Click submit_selector 5000],
                              console := console s' @
                                [''[ERROR] Could not find/click 'Continue' (or ''
                                 @ quoted submit_caption @ '') on this page.'']\<rparr>))
       \<and> (raises w' (trace (snd (for_each (fill_field w') person' s')) @ [Click submit_selector 5000])
              = Some e \<and> is_timeout e
            \<longrightarrow> fill_first_page w' person' s'
                = (Ret (), (snd (for_each (fill_field w') person' s'))
                     \<lparr>trace := trace (snd (for_each (fill_field w') person' s'))
                                @ [Click submit_selector 5000],
                       console := console (snd (for_each (fill_field w') person' s'))
                                  @ [''[ERROR] Could not find/click 'Continue' on page 1.'']\<rparr>))"
  using walk_pages_ret [OF rec iter below, of person s] fill_field_ret [of w' "(f, v)" s']
    fill_field_logged [of w' f v s' e]
    check_group_step(1) [of w' s' V n] check_group_logged [of w' s' V n e]
    click_group_step(1) [of w' s' options n]
    click_group_logged [of w' s' options n e, unfolded label_failed_def]
    click_continue_timeout [of w' s' e] fill_first_page_timeout [of w' person' s' e]
  by blast

theorem C4_caught_exceptions_do_not_abort_witness:
  "fst (walk_pages world_flaky person_ali s0) = Ret ()
   \<and> prints_of (fill_field world_flaky (''element_2'', JStr ''Ali'')) s0
       = [''[ERROR] Filling '' @ quoted ''element_2'' @ '' with '' @ quoted ''Ali''
          @ '' failed: detached'']
   \<and> prints_of (check_group world_flaky (''q1'', [''1'', ''2'', ''3''])) s0
       = [''[ERROR] Checking '' @ quoted (matrix_selector ''q1'' ''1'')
          @ '' failed: not attached'']
   \<and> prints_of (click_group world_flaky (''q1'', [(''1'', ''a''), (''2'', ''b''), (''3'', ''c'')])) s0
       = [''[ERROR] Clicking label '' @ quoted (label_selector ''a'') @ '' failed: intercepted'']
   \<and> click_continue world_flaky s0
       = (Ret (), \<lparr>trace = [Click submit_selector 5000],
                   console = [''[ERROR] Could not find/click 'Continue' (or ''
                              @ quoted submit_caption @ '') on this page.''],
                   draws = []\<rparr>)
   \<and> fill_first_page world_flaky person_ali s0
       = (Ret (), \<lparr>trace = [QuerySelector (selector_input ''element_2''),
                            Fill (selector_input ''element_2'') ''Ali'',
                            QuerySelector (selector_input ''element_3''),
                            Fill (selector_input ''element_3'') ''Rezaei'',
                            Click submit_selector 5000],
                   console = [''[ERROR] Filling '' @ quoted ''element_2'' @ '' with ''
                              @ quoted ''Ali'' @ '' failed: detached'',
                              ''[ERROR] Filling '' @ quoted ''element_3'' @ '' with ''
                              @ quoted ''Rezaei'' @ '' failed: detached'',
                              ''[ERROR] Could not find/click 'Continue' on page 1.''],
                   draws = []\<rparr>)"
proof -
  have rec: "\<forall>h c e. raises world_flaky (h @ [c]) = Some e \<longrightarrow> recoverable c e"
    by (auto simp add: world_flaky_def split: call.splits if_splits)
  have iter: "\<forall>vs. vs \<noteq> [] \<longrightarrow> set_iter world_flaky vs \<noteq> []"
    by (simp add: world_flaky_def)
  have below: "\<forall>h n. 0 < n \<longrightarrow> randbelow world_flaky (h @ [n]) < n"
    by (simp add: world_flaky_def)
  note t = C4_caught_exceptions_do_not_abort [OF rec iter below, of person_ali s0 world_flaky]
  note filled = t [of "''element_2''" "JStr ''Ali''" s0 "PlaywrightError ''detached''",
      THEN conjunct2, THEN conjunct2, THEN conjunct1, THEN mp]
  note checked = t [of _ _ s0 _ "[''1'', ''2'', ''3'']" "''q1''", where e = "PlaywrightError ''not attached''",
      THEN conjunct2, THEN conjunct2, THEN conjunct2, THEN conjunct2, THEN conjunct1, THEN mp]
  note clicked = t [of _ _ s0 _ _ _ "[(''1'', ''a''), (''2'', ''b''), (''3'', ''c'')]",
      where e = "PlaywrightError ''intercepted''" and n = "''q1''",
      THEN conjunct2, THEN conjunct2, THEN conjunct2, THEN conjunct2, THEN conjunct2,
      THEN conjunct2, THEN conjunct1, THEN mp]
  note continued = t [of _ _ s0 "PlaywrightTimeoutError ''Timeout 5000ms exceeded.''",
      THEN conjunct2, THEN conjunct2, THEN conjunct2, THEN conjunct2, THEN conjunct2,
      THEN conjunct2, THEN conjunct2, THEN conjunct1, THEN mp]
  note first = t [of _ _ s0 "PlaywrightTimeoutError ''Timeout 5000ms exceeded.''" _ _ _ person_ali,
      THEN conjunct2, THEN conjunct2, THEN conjunct2, THEN conjunct2, THEN conjunct2,
      THEN conjunct2, THEN conjunct2, THEN conjunct2, THEN mp]
  have a: "fst (walk_pages world_flaky person_ali s0) = Ret ()"
    by (rule t [THEN conjunct1])
  have b: "prints_of (fill_field world_flaky (''element_2'', JStr ''Ali'')) s0
       = [''[ERROR] Filling '' @ quoted ''element_2'' @ '' with '' @ quoted ''Ali''
          @ '' failed: detached'']"
    by (subst filled)
       (simp_all add: fill_field_def try_except_def and_then_def query_selector_eq perform_eq
          print_def is_exception_def world_flaky_def s0_def)
  have c: "prints_of (check_group world_flaky (''q1'', [''1'', ''2'', ''3''])) s0
       = [''[ERROR] Checking '' @ quoted (matrix_selector ''q1'' ''1'')
          @ '' failed: not attached'']"
    by (subst checked)
       (simp_all add: check_group_def random_choice_def Let_def try_except_def and_then_def
          query_selector_eq perform_eq print_def is_exception_def world_flaky_def s0_def)
  have d: "prints_of (click_group world_flaky (''q1'', [(''1'', ''a''), (''2'', ''b''), (''3'', ''c'')])) s0
       = [''[ERROR] Clicking label '' @ quoted (label_selector ''a'') @ '' failed: intercepted'']"
    by (subst clicked)
       (simp_all add: click_group_def random_choice_def Let_def try_except_def and_then_def
          query_selector_eq perform_eq print_def is_exception_def world_flaky_def s0_def
          label_selector_def submit_selector_def)
  have e: "click_continue world_flaky s0
       = (Ret (), \<lparr>trace = [Click submit_selector 5000],
                   console = [''[ERROR] Could not find/click 'Continue' (or ''
                              @ quoted submit_caption @ '') on this page.''],
                   draws = []\<rparr>)"
    by (subst continued) (simp_all add: world_flaky_def s0_def)
  have f: "fill_first_page world_flaky person_ali s0
       = (Ret (), \<lparr>trace = [QuerySelector (selector_input ''element_2''),
                            Fill (selector_input ''element_2'') ''Ali'',
                            QuerySelector (selector_input ''element_3''),
                            Fill (selector_input ''element_3'') ''Rezaei'',
                            Click submit_selector 5000],
                   console = [''[ERROR] Filling '' @ quoted ''element_2'' @ '' with ''
                              @ quoted ''Ali'' @ '' failed: detached'',
                              ''[ERROR] Filling '' @ quoted ''element_3'' @ '' with ''
                              @ quoted ''Rezaei'' @ '' failed: detached'',
                              ''[ERROR] Could not find/click 'Continue' on page 1.''],
                   draws = []\<rparr>)"
    by (subst first)
       (simp_all add: person_ali_def seq_def ret_def fill_field_def try_except_def and_then_def
          query_selector_eq perform_eq print_def is_exception_def world_flaky_def s0_def)
  from a b c d e f show ?thesis by (simp only: simp_thms)
qed

text \<open>
  C4 as stated fails: when the Continue click of page 1 raises a driver error that is
  not a timeout, \<open>main\<close> ends with that exception; the click is its last driver call
  and the second record is never started.
\<close>

theorem C4_continue_error_aborts_run_counterexample:
  "main world_continue_error (Loaded Valid_JSON (Elements [Dict person_ali, Dict person_ali])) s0
     = (Exc (PlaywrightError ''Target closed''),
        \<lparr>trace = [Launch False, NewPage, Goto SITE_URL 30000,
                   WaitForSelector ''#form_container'' 10000,
                   QuerySelector (selector_input ''element_2''),
                   Fill (selector_input ''element_2'') ''Ali'',
                   QuerySelector (selector_input ''element_3''),
                   Fill (selector_input ''element_3'') ''Rezaei'',
                   Click submit_selector 5000],
          console = [[CHR 0x0A] @ ''=== Processing person #1 ===''],
          draws = []\<rparr>)"
  by (simp add: main_def seq_def and_then_def perform_eq process_person_def open_page1_def
        walk_element_def walk_pages_def fill_first_page_def fill_field_def try_except_def
        query_selector_eq print_def ret_def is_exception_def world_continue_error_def s0_def
        person_ali_def PLAYWRIGHT_HEADLESS_def str_nat.simps)

subsection \<open>The order of the pages\<close>







lemma is_marker_simps [simp]:
  "\<not> is_marker (QuerySelector sel)" "\<not> is_marker (QuerySelectorAll sel)"
  "\<not> is_marker (Fill sel v)" "\<not> is_marker (SelectOption sel v)" "\<not> is_marker (Check sel)"
  "\<not> is_marker (Click (label_selector i) t)"
  "is_marker (Click submit_selector 5000)" "is_marker (WaitForTimeout 1000)"
  "is_marker (WaitForSelector radio_selector 5000)"
  by (simp_all add: is_marker_def label_selector_def submit_selector_def)














end
